theory Spec2Isabelle
  imports Complex_Main
begin

section \<open>Floating-point values of the notebook\<close>

text \<open>
  The notebook \<^verbatim>\<open>calc_entrain_adjust.ipynb\<close> computes with NumPy and xarray arrays of
  64-bit floats. A float is modelled as a value of \<open>fval\<close>: not-a-number (which xarray
  also uses for a missing value), the two infinities, or a finite value, taken as a real.
  The arithmetic on finite values is exact: rounding, overflow and the sign of zero are
  not modelled here (the rounding of a division is modelled apart, by \<open>f64_div\<close> below).
  The operations follow IEEE 754 on these four kinds of value.
\<close>

datatype fval = NaN | PInf | NInf | Fin real

datatype py_error = ValueError | IndexError

fun is_nan :: "fval \<Rightarrow> bool" where
  "is_nan NaN = True"
| "is_nan _ = False"

text \<open>\<^verbatim>\<open>DataArray.notnull()\<close>: true where the value is not missing.\<close>

definition notnull :: "fval \<Rightarrow> bool" where
  "notnull v = (\<not> is_nan v)"

fun fneg :: "fval \<Rightarrow> fval" where
  "fneg NaN = NaN"
| "fneg PInf = NInf"
| "fneg NInf = PInf"
| "fneg (Fin a) = Fin (- a)"

fun fadd :: "fval \<Rightarrow> fval \<Rightarrow> fval" where
  "fadd NaN _ = NaN"
| "fadd _ NaN = NaN"
| "fadd PInf NInf = NaN"
| "fadd NInf PInf = NaN"
| "fadd PInf _ = PInf"
| "fadd _ PInf = PInf"
| "fadd NInf _ = NInf"
| "fadd _ NInf = NInf"
| "fadd (Fin a) (Fin b) = Fin (a + b)"

definition fsub :: "fval \<Rightarrow> fval \<Rightarrow> fval" where
  "fsub a b = fadd a (fneg b)"

text \<open>The infinity of the sign of a nonzero real, times the sign \<open>pos\<close> of an infinity.\<close>

definition signed_inf :: "bool \<Rightarrow> real \<Rightarrow> fval" where
  "signed_inf pos b = (if b = 0 then NaN else if (0 < b) = pos then PInf else NInf)"

fun fmul :: "fval \<Rightarrow> fval \<Rightarrow> fval" where
  "fmul NaN _ = NaN"
| "fmul _ NaN = NaN"
| "fmul PInf PInf = PInf"
| "fmul PInf NInf = NInf"
| "fmul NInf PInf = NInf"
| "fmul NInf NInf = PInf"
| "fmul PInf (Fin b) = signed_inf True b"
| "fmul NInf (Fin b) = signed_inf False b"
| "fmul (Fin a) PInf = signed_inf True a"
| "fmul (Fin a) NInf = signed_inf False a"
| "fmul (Fin a) (Fin b) = Fin (a * b)"

text \<open>
  Division: a finite nonzero value over zero is an infinity, zero over zero is NaN
  (NumPy warns and goes on; it does not raise). Zero is taken as positive zero.
\<close>

fun fdiv :: "fval \<Rightarrow> fval \<Rightarrow> fval" where
  "fdiv NaN _ = NaN"
| "fdiv _ NaN = NaN"
| "fdiv (Fin a) (Fin b) =
     (if b \<noteq> 0 then Fin (a / b) else if a = 0 then NaN else if 0 < a then PInf else NInf)"
| "fdiv (Fin a) _ = Fin 0"
| "fdiv PInf (Fin b) = (if 0 \<le> b then PInf else NInf)"
| "fdiv NInf (Fin b) = (if 0 \<le> b then NInf else PInf)"
| "fdiv _ _ = NaN"

fun fabs :: "fval \<Rightarrow> fval" where
  "fabs NaN = NaN"
| "fabs PInf = PInf"
| "fabs NInf = PInf"
| "fabs (Fin a) = Fin \<bar>a\<bar>"

fun flog :: "fval \<Rightarrow> fval" where
  "flog NaN = NaN"
| "flog PInf = PInf"
| "flog NInf = NaN"
| "flog (Fin a) = (if a < 0 then NaN else if a = 0 then NInf else Fin (ln a))"

text \<open>Comparisons: every comparison with NaN is false, except \<open>!=\<close>, which is true.\<close>

fun flt :: "fval \<Rightarrow> fval \<Rightarrow> bool" where
  "flt NaN _ = False"
| "flt _ NaN = False"
| "flt (Fin a) (Fin b) = (a < b)"
| "flt NInf NInf = False"
| "flt NInf _ = True"
| "flt PInf _ = False"
| "flt (Fin a) PInf = True"
| "flt (Fin a) NInf = False"

definition fgt :: "fval \<Rightarrow> fval \<Rightarrow> bool" where
  "fgt a b = flt b a"

definition fge :: "fval \<Rightarrow> fval \<Rightarrow> bool" where
  "fge a b = (\<not> is_nan a \<and> \<not> is_nan b \<and> \<not> flt a b)"

definition fne :: "fval \<Rightarrow> fval \<Rightarrow> bool" where
  "fne a b = (is_nan a \<or> is_nan b \<or> a \<noteq> b)"

text \<open>\<^verbatim>\<open>ndarray.sum()\<close>: NaN propagates; the sum of an empty array is 0.0.\<close>

definition fsum :: "fval list \<Rightarrow> fval" where
  "fsum xs = foldr fadd xs (Fin 0)"

text \<open>
  \<^verbatim>\<open>DataArray.sum()\<close> of xarray skips missing values (\<open>skipna\<close> is on for floats),
  so that the sum of an array with no value at all is 0.0.
\<close>

definition nansum :: "fval list \<Rightarrow> fval" where
  "nansum xs = fsum (filter notnull xs)"

section \<open>NumPy and xarray operations used by the integration\<close>

text \<open>
  \<^verbatim>\<open>np.argmin\<close> on floats. It keeps the first smallest value, and a NaN counts as
  smaller than everything: the scan stops at the first NaN. An empty array raises.
\<close>

fun argmin_loop :: "fval list \<Rightarrow> nat \<Rightarrow> fval \<Rightarrow> nat \<Rightarrow> nat" where
  "argmin_loop [] i mp min_ind = min_ind"
| "argmin_loop (x # xs) i mp min_ind =
     (if is_nan mp then min_ind
      else if \<not> fge x mp then argmin_loop xs (Suc i) x i
      else argmin_loop xs (Suc i) mp min_ind)"

definition np_argmin :: "fval list \<Rightarrow> py_error + nat" where
  "np_argmin xs = (case xs of [] \<Rightarrow> Inl ValueError | x # rest \<Rightarrow> Inr (argmin_loop rest 1 x 0))"

text \<open>\<^verbatim>\<open>np.diff(x)\<close>, that is \<^verbatim>\<open>x[1:] - x[:-1]\<close>.\<close>

definition np_diff :: "real list \<Rightarrow> real list" where
  "np_diff x = map2 (\<lambda>b a. b - a) (tl x) (butlast x)"

text \<open>
  Elementwise operation on two one-dimensional arrays with NumPy's broadcasting: equal
  lengths, or one of them of length one; anything else raises.
\<close>

definition broadcast2 :: "('a \<Rightarrow> 'b \<Rightarrow> 'c) \<Rightarrow> 'a list \<Rightarrow> 'b list \<Rightarrow> py_error + 'c list" where
  "broadcast2 f a b =
     (if length a = length b then Inr (map2 f a b)
      else if length a = 1 then Inr (map (f (hd a)) b)
      else if length b = 1 then Inr (map (\<lambda>x. f x (hd b)) a)
      else Inl ValueError)"

text \<open>
  \<^verbatim>\<open>np.trapz(y, x=x)\<close> for one-dimensional arrays:
  \<^verbatim>\<open>(d * (y[1:] + y[:-1]) / 2.0).sum()\<close> with \<^verbatim>\<open>d = diff(x)\<close>.
\<close>

definition np_trapz :: "fval list \<Rightarrow> real list \<Rightarrow> py_error + fval" where
  "np_trapz y x =
     (let d = map Fin (np_diff x);
          s = map2 fadd (tl y) (butlast y)
      in case broadcast2 fmul d s of
           Inl e \<Rightarrow> Inl e
         | Inr ds \<Rightarrow> Inr (fsum (map (\<lambda>v. fdiv v (Fin 2)) ds)))"

text \<open>
  \<^verbatim>\<open>.sel(plev = slice(lo, hi))\<close>: the label-based slice of pandas on the pressure
  coordinate, both ends included. On an increasing coordinate the slice runs from the
  position \<^verbatim>\<open>searchsorted(lo, side='left')\<close> to \<^verbatim>\<open>searchsorted(hi, side='right')\<close>;
  the model is that of an increasing coordinate (in the notebook the last level of the
  axis is the one nearest the surface).
\<close>

definition searchsorted_left :: "real list \<Rightarrow> real \<Rightarrow> nat" where
  "searchsorted_left plev v = length (takeWhile (\<lambda>p. p < v) plev)"

definition searchsorted_right :: "real list \<Rightarrow> real \<Rightarrow> nat" where
  "searchsorted_right plev v = length (takeWhile (\<lambda>p. p \<le> v) plev)"

text \<open>The Python slice \<^verbatim>\<open>a[i:j]\<close> for indices that are not negative.\<close>

definition py_slice :: "'a list \<Rightarrow> nat \<Rightarrow> nat \<Rightarrow> 'a list" where
  "py_slice a i j = take (j - i) (drop i a)"

definition sel_slice :: "real list \<Rightarrow> real \<Rightarrow> real \<Rightarrow> 'a list \<Rightarrow> 'a list" where
  "sel_slice plev lo hi a = py_slice a (searchsorted_left plev lo) (searchsorted_right plev hi)"

section \<open>The column integration (VerticalIntegrator)\<close>

definition plev_FT :: real where
  "plev_FT = 50000"

text \<open>\<^verbatim>\<open>plev_FT_index = np.argmin(np.abs(plev_array - plev_FT))\<close>\<close>

definition plev_FT_index :: "real list \<Rightarrow> py_error + nat" where
  "plev_FT_index plev_array = np_argmin (map (\<lambda>p. fabs (fsub (Fin p) (Fin plev_FT))) plev_array)"

text \<open>\<^verbatim>\<open>lcl_plev = np.argmin(np.abs(plev_array - lcli))\<close>\<close>

definition lcl_plev :: "real list \<Rightarrow> fval \<Rightarrow> py_error + nat" where
  "lcl_plev plev_array lcli = np_argmin (map (\<lambda>p. fabs (fsub (Fin p) lcli)) plev_array)"

text \<open>
  \<^verbatim>\<open>dhdp_500_to_lcl = dhdp.sel(..., plev = slice(plev_FT, plev_array[lcl_plev]))\<close>
  for the column \<open>dhdp\<close> of one month, latitude and longitude, and
  \<^verbatim>\<open>plev_500_to_lcl = plev_array[plev_FT_index:lcl_plev+1]\<close>.
\<close>

definition dhdp_500_to_lcl :: "real list \<Rightarrow> fval list \<Rightarrow> nat \<Rightarrow> fval list" where
  "dhdp_500_to_lcl plev_array dhdp k = sel_slice plev_array plev_FT (plev_array ! k) dhdp"

definition plev_500_to_lcl :: "real list \<Rightarrow> nat \<Rightarrow> nat \<Rightarrow> real list" where
  "plev_500_to_lcl plev_array i k = py_slice plev_array i (k + 1)"

text \<open>
  The body of the loop over month, latitude and longitude: the value stored in
  \<^verbatim>\<open>adjustment[month, lati, loni]\<close>. The control pass and the perturbation pass
  have the same body.
\<close>

definition adjustment :: "real list \<Rightarrow> fval list \<Rightarrow> fval \<Rightarrow> py_error + fval" where
  "adjustment plev_array dhdp lcli =
     (case plev_FT_index plev_array of
        Inl e \<Rightarrow> Inl e
      | Inr i \<Rightarrow>
          (case lcl_plev plev_array lcli of
             Inl e \<Rightarrow> Inl e
           | Inr k \<Rightarrow> np_trapz (dhdp_500_to_lcl plev_array dhdp k) (plev_500_to_lcl plev_array i k)))"

section \<open>The pressure-weighted virtual temperature and the integrand\<close>

text \<open>
  The notebook works on whole fields at once; the operations are elementwise in month,
  latitude and longitude, so the model follows one column: a list of values, one for
  each level of \<open>plev_array\<close>. Units are left out. The thermodynamic fields
  (\<open>virtual_temp\<close>, \<open>pfull\<close>, \<open>sat_def\<close>, \<open>ps\<close>, the LCL pressure) come from MetPy
  and from the data files and are inputs here, as is the constant \<open>Lv\<close>.
\<close>

text \<open>\<^verbatim>\<open>virtual_temp_by_p = virtual_temp/pfull\<close> and \<^verbatim>\<open>1/pfull\<close>\<close>

definition virtual_temp_by_p :: "fval list \<Rightarrow> fval list \<Rightarrow> fval list" where
  "virtual_temp_by_p virtual_temp pfull = map2 fdiv virtual_temp pfull"

definition inv_pfull :: "fval list \<Rightarrow> fval list" where
  "inv_pfull pfull = map (fdiv (Fin 1)) pfull"

text \<open>
  \<^verbatim>\<open>DataArray.integrate(coord = 'plev')\<close>: the trapezoidal rule of xarray over the
  values of the coordinate, \<^verbatim>\<open>sum(dx * 0.5 * (y[1:] + y[:-1]), skipna=False)\<close>.
\<close>

definition xr_integrate :: "fval list \<Rightarrow> real list \<Rightarrow> fval" where
  "xr_integrate y x =
     fsum (map2 (\<lambda>dx s. fmul (fmul (Fin dx) (Fin (1 / 2))) s) (np_diff x)
       (map2 fadd (tl y) (butlast y)))"

text \<open>
  One pass of the loop over \<open>plev_index\<close> for one of the two fields:
  \<^verbatim>\<open>part1i = virtual_temp_by_p.sel(plev = slice(pressure, 100000.))\<close>, then the value
  \<^verbatim>\<open>part1i[:,0,]\<close> at the first level of the slice when the level is the last one of
  the axis (an empty slice raises IndexError), the integral over the slice otherwise.
\<close>

definition part_at :: "real list \<Rightarrow> fval list \<Rightarrow> nat \<Rightarrow> py_error + fval" where
  "part_at plev_array f plev_index =
     (let pressure = plev_array ! plev_index;
          parti = sel_slice plev_array pressure 100000 f;
          coord = sel_slice plev_array pressure 100000 plev_array
      in if plev_array ! plev_index = last plev_array
         then (case parti of [] \<Rightarrow> Inl IndexError | v # _ \<Rightarrow> Inr v)
         else Inr (xr_integrate parti coord))"

definition part_step :: "real list \<Rightarrow> fval list \<Rightarrow> fval list \<Rightarrow> nat \<Rightarrow> py_error + fval \<times> fval" where
  "part_step plev_array virtual_temp pfull plev_index =
     (case part_at plev_array (virtual_temp_by_p virtual_temp pfull) plev_index of
        Inl e \<Rightarrow> Inl e
      | Inr p1 \<Rightarrow>
          (case part_at plev_array (inv_pfull pfull) plev_index of
             Inl e \<Rightarrow> Inl e
           | Inr p2 \<Rightarrow> Inr (p1, p2)))"

text \<open>A loop whose body may raise: the first error ends it.\<close>

fun for_each :: "('a \<Rightarrow> py_error + 'b) \<Rightarrow> 'a list \<Rightarrow> py_error + 'b list" where
  "for_each body [] = Inr []"
| "for_each body (x # xs) =
     (case body x of
        Inl e \<Rightarrow> Inl e
      | Inr y \<Rightarrow> (case for_each body xs of Inl e \<Rightarrow> Inl e | Inr ys \<Rightarrow> Inr (y # ys)))"

text \<open>
  The loop \<^verbatim>\<open>for plev_index in range(len(plev_array))\<close>, which fills \<open>part1\<close> and
  \<open>part2\<close>, and \<^verbatim>\<open>virtual_temperature_pressure_weighted = part1/part2\<close>.
\<close>

definition parts :: "real list \<Rightarrow> fval list \<Rightarrow> fval list \<Rightarrow> py_error + (fval \<times> fval) list" where
  "parts plev_array virtual_temp pfull =
     for_each (part_step plev_array virtual_temp pfull) [0..<length plev_array]"

definition virtual_temperature_pressure_weighted ::
    "real list \<Rightarrow> fval list \<Rightarrow> fval list \<Rightarrow> py_error + fval list" where
  "virtual_temperature_pressure_weighted plev_array virtual_temp pfull =
     (case parts plev_array virtual_temp pfull of
        Inl e \<Rightarrow> Inl e
      | Inr ps \<Rightarrow> Inr (map (\<lambda>(part1, part2). fdiv part1 part2) ps))"

text \<open>
  \<^verbatim>\<open>dhdp = (virtual_temp/virtual_temperature_pressure_weighted)*(-Lv*sat_def)/(pfull*np.log(pfull/ps))\<close>
  at one level.
\<close>

definition dhdp_level :: "real \<Rightarrow> fval \<Rightarrow> fval \<Rightarrow> fval \<Rightarrow> fval \<Rightarrow> fval \<Rightarrow> fval" where
  "dhdp_level Lv ps vt vtpw sd p =
     fdiv (fmul (fdiv vt vtpw) (fmul (Fin (- Lv)) sd)) (fmul p (flog (fdiv p ps)))"

definition dhdp_column ::
    "real \<Rightarrow> real list \<Rightarrow> fval list \<Rightarrow> fval list \<Rightarrow> fval \<Rightarrow> fval list \<Rightarrow> py_error + fval list" where
  "dhdp_column Lv plev_array virtual_temp pfull ps sat_def =
     (case virtual_temperature_pressure_weighted plev_array virtual_temp pfull of
        Inl e \<Rightarrow> Inl e
      | Inr vtpw \<Rightarrow>
          Inr (map (\<lambda>(vt, w, sd, p). dhdp_level Lv ps vt w sd p)
                 (zip virtual_temp (zip vtpw (zip sat_def pfull)))))"

text \<open>The adjustment of one column from the fields of the experiment.\<close>

definition column_adjustment ::
    "real \<Rightarrow> real list \<Rightarrow> fval list \<Rightarrow> fval list \<Rightarrow> fval \<Rightarrow> fval list \<Rightarrow> fval \<Rightarrow> py_error + fval" where
  "column_adjustment Lv plev_array virtual_temp pfull ps sat_def lcli =
     (case dhdp_column Lv plev_array virtual_temp pfull ps sat_def of
        Inl e \<Rightarrow> Inl e
      | Inr dhdp \<Rightarrow> adjustment plev_array dhdp lcli)"

section \<open>The rounding of the divisions at the bottom level\<close>

text \<open>
  \<open>fdiv\<close> is the exact quotient. NumPy rounds the quotient of every float64 division to
  the nearest float64, ties to the even significand. \<open>f64_round\<close> is that rounding for
  a value in the normal range (53 significant bits; overflow and subnormal values are not
  modelled), and \<open>f64_div\<close> the division of two float64 values.
\<close>

definition pow2 :: "int \<Rightarrow> real" where
  "pow2 e = (if 0 \<le> e then 2 ^ nat e else 1 / 2 ^ nat (- e))"

text \<open>
  The binary exponent \<open>e\<close> of a positive value \<open>x\<close>, with \<open>2\<^sup>e \<le> x < 2\<^sup>e\<^sup>+\<^sup>1\<close>, found by
  stepping from a starting exponent; the exponents of float64 lie within 1100 steps of 0.
\<close>

fun binade_from :: "nat \<Rightarrow> int \<Rightarrow> real \<Rightarrow> int" where
  "binade_from 0 e x = e"
| "binade_from (Suc steps) e x =
     (if pow2 (e + 1) \<le> x then binade_from steps (e + 1) x
      else if x < pow2 e then binade_from steps (e - 1) x
      else e)"

definition binade :: "real \<Rightarrow> int" where
  "binade x = binade_from 2200 0 x"

definition round_half_even :: "real \<Rightarrow> int" where
  "round_half_even x =
     (let f = \<lfloor>x\<rfloor>; d = x - of_int f
      in if d < 1 / 2 then f else if 1 / 2 < d then f + 1 else if even f then f else f + 1)"

definition f64_round :: "real \<Rightarrow> real" where
  "f64_round x =
     (if x = 0 then 0
      else let ulp = pow2 (binade \<bar>x\<bar> - 52)
           in sgn x * of_int (round_half_even (\<bar>x\<bar> / ulp)) * ulp)"

definition f64_div :: "real \<Rightarrow> real \<Rightarrow> real" where
  "f64_div a b = f64_round (a / b)"

text \<open>
  The value of \<^verbatim>\<open>virtual_temperature_pressure_weighted\<close> at the last level of the axis,
  for a finite virtual temperature and a finite nonzero pressure there, with the three
  divisions of the notebook in float64: \<^verbatim>\<open>virtual_temp/pfull\<close> and \<^verbatim>\<open>1/pfull\<close>, stored
  for that level by the branch \<^verbatim>\<open>part1i[:,0,]\<close>, and \<^verbatim>\<open>part1/part2\<close>.
\<close>

definition bottom_level_ratio_f64 :: "real \<Rightarrow> real \<Rightarrow> real" where
  "bottom_level_ratio_f64 virtual_temp pfull =
     f64_div (f64_div virtual_temp pfull) (f64_div 1 pfull)"

section \<open>What the integration is meant to compute\<close>

text \<open>
  The reading of the specification, to compare with the code: the nearest level is a
  level of the axis whose distance to the LCL pressure is the least; the slice holds the
  levels whose pressure lies between the pressures of the two end levels, both included,
  whichever of the two is the larger; the trapezoidal rule sums, over neighbouring
  levels, the pressure step times the mean of the two values.
\<close>

definition nearest_level :: "real list \<Rightarrow> real \<Rightarrow> nat \<Rightarrow> bool" where
  "nearest_level plev l k \<longleftrightarrow>
     k < length plev \<and> (\<forall>j<length plev. \<bar>plev ! k - l\<bar> \<le> \<bar>plev ! j - l\<bar>)"

definition levels_between :: "real list \<Rightarrow> fval list \<Rightarrow> real \<Rightarrow> real \<Rightarrow> (real \<times> fval) list" where
  "levels_between plev ys a b = filter (\<lambda>(p, y). min a b \<le> p \<and> p \<le> max a b) (zip plev ys)"

fun trapezoid :: "(real \<times> fval) list \<Rightarrow> fval" where
  "trapezoid ((p1, y1) # (p2, y2) # rest) =
     fadd (fdiv (fmul (Fin (p2 - p1)) (fadd y2 y1)) (Fin 2)) (trapezoid ((p2, y2) # rest))"
| "trapezoid _ = Fin 0"

section \<open>The ascent fractions and the objective of the calibration\<close>

text \<open>
  A field over month, latitude and longitude is a function of the three indices, read on
  the grid of a given shape; all the fields of an experiment are on the same grid. The
  latitude weights are a function of the latitude index. The estimators are modelled
  for three-dimensional fields (the branch \<^verbatim>\<open>np.ndim(...) == 3\<close>), as the calibration
  calls them.
\<close>

type_synonym field3 = "nat \<Rightarrow> nat \<Rightarrow> nat \<Rightarrow> fval"

type_synonym shape = "nat \<times> nat \<times> nat"

fun points :: "shape \<Rightarrow> (nat \<times> nat \<times> nat) list" where
  "points (n_month, n_lat, n_lon) =
     List.product [0..<n_month] (List.product [0..<n_lat] [0..<n_lon])"

text \<open>\<^verbatim>\<open>a.where(cond)\<close>: the value where the condition holds, missing elsewhere.\<close>

definition xr_where :: "bool \<Rightarrow> fval \<Rightarrow> fval" where
  "xr_where cond v = (if cond then v else NaN)"

text \<open>
  \<^verbatim>\<open>weights = weights.where(landmask.notnull()==False)\<close> and
  \<^verbatim>\<open>weights_3Darray = (weights * ones(len(month))).T * ones(len(lon))\<close>
\<close>

definition weights_3Darray :: "(nat \<Rightarrow> fval) \<Rightarrow> field3 \<Rightarrow> field3" where
  "weights_3Darray weights landmask month lat lon =
     fmul (fmul (xr_where (notnull (landmask month lat lon) = False) (weights lat)) (Fin 1)) (Fin 1)"

text \<open>\<^verbatim>\<open>DataArray.sum()\<close> over all the points of the grid.\<close>

definition grid_sum :: "shape \<Rightarrow> field3 \<Rightarrow> fval" where
  "grid_sum s f = nansum (map (\<lambda>(month, lat, lon). f month lat lon) (points s))"

definition proportion_overcome_conv_threshold ::
    "shape \<Rightarrow> field3 \<Rightarrow> field3 \<Rightarrow> (nat \<Rightarrow> fval) \<Rightarrow> field3 \<Rightarrow> fval" where
  "proportion_overcome_conv_threshold s hsfc hsat500 weights landmask =
     (let w3 = weights_3Darray weights landmask;
          instab_index = (\<lambda>month lat lon. fsub (hsfc month lat lon) (hsat500 month lat lon))
      in fdiv (grid_sum s (\<lambda>month lat lon.
                 xr_where (fgt (instab_index month lat lon) (Fin 0)) (w3 month lat lon)))
              (grid_sum s w3))"

definition calc_ascent_frac :: "shape \<Rightarrow> field3 \<Rightarrow> (nat \<Rightarrow> fval) \<Rightarrow> field3 \<Rightarrow> fval" where
  "calc_ascent_frac s wap500 weights landmask =
     (let w3 = weights_3Darray weights landmask
      in fdiv (grid_sum s (\<lambda>month lat lon.
                 xr_where (flt (wap500 month lat lon) (Fin 0)) (w3 month lat lon)))
              (grid_sum s w3))"

text \<open>
  The mask of the calibration. \<open>land\<close> is the mask of regionmask over latitude and
  longitude (a region number on land, missing over the ocean):
  \<^verbatim>\<open>landmask = xr.ones_like(wap500_ctrl).where(landmask.notnull()==False).where(adjustment_ctrl.notnull()==True)\<close>,
  \<^verbatim>\<open>landmask = xr.zeros_like(landmask).where(landmask != 1)\<close>.
\<close>

definition landmask_adjusted :: "(nat \<Rightarrow> nat \<Rightarrow> fval) \<Rightarrow> field3 \<Rightarrow> field3" where
  "landmask_adjusted land adjustment_ctrl month lat lon =
     (let landmask = xr_where (notnull (adjustment_ctrl month lat lon) = True)
                       (xr_where (notnull (land lat lon) = False) (Fin 1))
      in xr_where (fne landmask (Fin 1)) (Fin 0))"

text \<open>
  \<^verbatim>\<open>func(ehat, hsfc, adjustment, hsat500, wap500)\<close>; \<open>weights\<close> and \<open>landmask\<close> are
  the globals of the notebook, and \<open>adjustment'\<close> is the argument \<open>adjustment\<close>.
\<close>

definition func ::
    "shape \<Rightarrow> (nat \<Rightarrow> fval) \<Rightarrow> field3 \<Rightarrow> fval \<Rightarrow> field3 \<Rightarrow> field3 \<Rightarrow> field3 \<Rightarrow> field3 \<Rightarrow> fval" where
  "func s weights landmask ehat hsfc adjustment' hsat500 wap500 =
     (let index = proportion_overcome_conv_threshold s
                    (\<lambda>month lat lon. fsub (hsfc month lat lon) (fmul (adjustment' month lat lon) ehat))
                    hsat500 weights landmask;
          alpha_up = calc_ascent_frac s wap500 weights landmask
      in fabs (fsub alpha_up index))"

text \<open>
  The objective that \<^verbatim>\<open>dual_annealing\<close> is given: \<open>func\<close> with the control fields,
  each masked by \<^verbatim>\<open>.where(landmask.notnull()==False)\<close>.
\<close>

definition masked :: "field3 \<Rightarrow> field3 \<Rightarrow> field3" where
  "masked landmask f month lat lon = xr_where (notnull (landmask month lat lon) = False) (f month lat lon)"

definition objective ::
    "shape \<Rightarrow> (nat \<Rightarrow> fval) \<Rightarrow> (nat \<Rightarrow> nat \<Rightarrow> fval) \<Rightarrow> field3 \<Rightarrow> field3 \<Rightarrow> field3 \<Rightarrow> field3 \<Rightarrow> fval \<Rightarrow> fval" where
  "objective s weights land hsfc_ctrl adjustment_ctrl hsat500_ctrl wap500_ctrl ehat =
     (let landmask = landmask_adjusted land adjustment_ctrl
      in func s weights landmask ehat (masked landmask hsfc_ctrl) (masked landmask adjustment_ctrl)
           (masked landmask hsat500_ctrl) (masked landmask wap500_ctrl))"

section \<open>What the ascent fraction is meant to compute\<close>

text \<open>
  The reading of the specification: the sum of the weights over the points that are not
  masked and satisfy the ascent predicate, over the sum of the weights over the points
  that are not masked; a point ascends by its vertical velocity when the velocity is
  below zero, and by the instability index when the residual
  \<open>hsfc - ehat * adjustment - hsat_ref\<close> is above zero.
\<close>

definition weighted_fraction ::
    "shape \<Rightarrow> (nat \<Rightarrow> real) \<Rightarrow> (nat \<times> nat \<times> nat \<Rightarrow> bool) \<Rightarrow> (nat \<times> nat \<times> nat \<Rightarrow> bool) \<Rightarrow> fval" where
  "weighted_fraction s w unmasked ascent =
     fdiv (Fin (sum_list (map (\<lambda>(month, lat, lon). w lat)
                  (filter (\<lambda>p. unmasked p \<and> ascent p) (points s)))))
          (Fin (sum_list (map (\<lambda>(month, lat, lon). w lat) (filter unmasked (points s)))))"

fun velocity_ascent :: "fval \<Rightarrow> bool" where
  "velocity_ascent (Fin wap) = (wap < 0)"
| "velocity_ascent _ = False"

fun instability_ascent :: "real \<Rightarrow> fval \<Rightarrow> fval \<Rightarrow> fval \<Rightarrow> bool" where
  "instability_ascent ehat (Fin hsfc) (Fin adj) (Fin hsat_ref) = (hsfc - ehat * adj - hsat_ref > 0)"
| "instability_ascent ehat _ _ _ = False"

text \<open>A point is not masked when the mask has no value there.\<close>

definition unmasked :: "field3 \<Rightarrow> nat \<times> nat \<times> nat \<Rightarrow> bool" where
  "unmasked landmask = (\<lambda>(m, la, lo). \<not> notnull (landmask m la lo))"

text \<open>A value of a data field: finite, or missing.\<close>

definition finite_or_missing :: "fval \<Rightarrow> bool" where
  "finite_or_missing v = (v \<noteq> PInf \<and> v \<noteq> NInf)"

section \<open>Small grids for examples\<close>

text \<open>
  Fields used to evaluate the estimators at concrete inputs: weights all equal to one, the
  mask of regionmask over an all-ocean and over an all-land domain, a field with one value
  everywhere, and a field that varies along the longitude only.
\<close>

definition unit_weights :: "nat \<Rightarrow> fval" where
  "unit_weights lat = Fin 1"

definition all_ocean :: "nat \<Rightarrow> nat \<Rightarrow> fval" where
  "all_ocean lat lon = NaN"

definition all_land :: "nat \<Rightarrow> nat \<Rightarrow> fval" where
  "all_land lat lon = Fin 0"

definition const_field :: "fval \<Rightarrow> field3" where
  "const_field v month lat lon = v"

definition lon_field :: "fval list \<Rightarrow> field3" where
  "lon_field vs month lat lon = vs ! lon"

section \<open>Properties of the column integration\<close>

subsection \<open>Nearest level and slices\<close>

lemma argmin_loop_bound:
  "argmin_loop xs i mp mi = mi \<or> (i \<le> argmin_loop xs i mp mi \<and> argmin_loop xs i mp mi < i + length xs)"
proof (induction xs arbitrary: i mp mi)
  case Nil
  then show ?case by simp
next
  case (Cons x xs)
  show ?case
    using Cons.IH [of "Suc i" x i] Cons.IH [of "Suc i" mp mi]
    by auto
qed

lemma np_argmin_bound: "np_argmin xs = Inr k \<Longrightarrow> k < length xs"
  using argmin_loop_bound [of "tl xs" 1 "hd xs" 0]
  by (cases xs) (auto simp: np_argmin_def)

lemma searchsorted_left_nth:
  "sorted_wrt (<) plev \<Longrightarrow> k < length plev \<Longrightarrow> searchsorted_left plev (plev ! k) = k"
  unfolding searchsorted_left_def
proof (induction plev arbitrary: k)
  case Nil
  then show ?case by simp
next
  case (Cons p ps)
  then show ?case
    by (cases k) auto
qed

lemma takeWhile_le_Nil: "\<forall>x\<in>set ps. (p::real) < x \<Longrightarrow> takeWhile (\<lambda>q. q \<le> p) ps = []"
  by (cases ps) auto

lemma searchsorted_right_nth:
  "sorted_wrt (<) plev \<Longrightarrow> k < length plev \<Longrightarrow> searchsorted_right plev (plev ! k) = Suc k"
  unfolding searchsorted_right_def
proof (induction plev arbitrary: k)
  case Nil
  then show ?case by simp
next
  case (Cons p ps)
  then show ?case
    by (cases k) (auto simp: less_imp_le takeWhile_le_Nil)
qed

lemma fge_Fin [simp]: "fge (Fin a) (Fin b) = (b \<le> a)"
  by (auto simp: fge_def)

lemma argmin_loop_Fin:
  "argmin_loop (map Fin rs) i (Fin m) mi = r \<Longrightarrow>
     (r = mi \<and> (\<forall>x\<in>set rs. m \<le> x)) \<or>
     (i \<le> r \<and> r - i < length rs \<and> rs ! (r - i) < m \<and> (\<forall>x\<in>set rs. rs ! (r - i) \<le> x)
        \<and> (\<forall>j<r - i. rs ! (r - i) < rs ! j))"
proof (induction rs arbitrary: i m mi)
  case Nil
  then show ?case by simp
next
  case (Cons x xs)
  show ?case
  proof (cases "x < m")
    case True
    with Cons.prems have r: "argmin_loop (map Fin xs) (Suc i) (Fin x) i = r" by simp
    from Cons.IH [OF r] show ?thesis
    proof
      assume "r = i \<and> (\<forall>y\<in>set xs. x \<le> y)"
      with True show ?thesis by auto
    next
      assume a: "Suc i \<le> r \<and> r - Suc i < length xs \<and> xs ! (r - Suc i) < x
          \<and> (\<forall>y\<in>set xs. xs ! (r - Suc i) \<le> y) \<and> (\<forall>j<r - Suc i. xs ! (r - Suc i) < xs ! j)"
      then obtain d where d: "r - i = Suc d" "r - Suc i = d"
        by (metis Suc_diff_Suc Suc_le_lessD)
      with a True show ?thesis
        by (auto simp: nth_Cons split: nat.splits)
    qed
  next
    case False
    with Cons.prems have r: "argmin_loop (map Fin xs) (Suc i) (Fin m) mi = r" by simp
    from Cons.IH [OF r] show ?thesis
    proof
      assume "r = mi \<and> (\<forall>y\<in>set xs. m \<le> y)"
      with False show ?thesis by auto
    next
      assume a: "Suc i \<le> r \<and> r - Suc i < length xs \<and> xs ! (r - Suc i) < m
          \<and> (\<forall>y\<in>set xs. xs ! (r - Suc i) \<le> y) \<and> (\<forall>j<r - Suc i. xs ! (r - Suc i) < xs ! j)"
      then obtain d where d: "r - i = Suc d" "r - Suc i = d"
        by (metis Suc_diff_Suc Suc_le_lessD)
      with a False show ?thesis
        by (auto simp: nth_Cons split: nat.splits)
    qed
  qed
qed

lemma np_argmin_Fin:
  assumes "np_argmin (map Fin rs) = Inr k"
  shows "k < length rs \<and> (\<forall>x\<in>set rs. rs ! k \<le> x) \<and> (\<forall>j<k. rs ! k < rs ! j)"
proof (cases rs)
  case Nil
  with assms show ?thesis by (simp add: np_argmin_def)
next
  case (Cons x xs)
  with assms have r: "argmin_loop (map Fin xs) 1 (Fin x) 0 = k"
    by (simp add: np_argmin_def)
  from argmin_loop_Fin [OF r] show ?thesis
  proof
    assume "k = 0 \<and> (\<forall>y\<in>set xs. x \<le> y)"
    with Cons show ?thesis by auto
  next
    assume a: "1 \<le> k \<and> k - 1 < length xs \<and> xs ! (k - 1) < x
          \<and> (\<forall>y\<in>set xs. xs ! (k - 1) \<le> y) \<and> (\<forall>j<k - 1. xs ! (k - 1) < xs ! j)"
    then obtain d where d: "k = Suc d" by (cases k) auto
    with a Cons show ?thesis
      by (auto simp: nth_Cons split: nat.splits)
  qed
qed

lemma abs_dist_Fin: "map (\<lambda>p. fabs (fsub (Fin p) (Fin l))) plev = map Fin (map (\<lambda>p. \<bar>p - l\<bar>) plev)"
  by (simp add: fsub_def)

lemma np_argmin_nonempty: "xs \<noteq> [] \<Longrightarrow> \<exists>k. np_argmin xs = Inr k"
  by (cases xs) (auto simp: np_argmin_def)

lemma plev_FT_index_nth:
  assumes "sorted_wrt (<) plev" "i < length plev" "plev ! i = plev_FT"
  shows "plev_FT_index plev = Inr i"
proof -
  from assms(2) have "map (\<lambda>p. fabs (fsub (Fin p) (Fin plev_FT))) plev \<noteq> []" by auto
  from np_argmin_nonempty [OF this] obtain k where k: "plev_FT_index plev = Inr k"
    by (auto simp: plev_FT_index_def)
  then have "np_argmin (map Fin (map (\<lambda>p. \<bar>p - plev_FT\<bar>) plev)) = Inr k"
    by (simp add: plev_FT_index_def abs_dist_Fin)
  from np_argmin_Fin [OF this] have kl: "k < length plev"
    and "\<forall>x\<in>set (map (\<lambda>p. \<bar>p - plev_FT\<bar>) plev). map (\<lambda>p. \<bar>p - plev_FT\<bar>) plev ! k \<le> x"
    by auto
  with assms(2,3) have "\<bar>plev ! k - plev_FT\<bar> \<le> \<bar>plev ! i - plev_FT\<bar>"
    by (metis (no_types, lifting) length_map nth_map nth_mem)
  with assms(3) have "plev ! k = plev ! i" by simp
  moreover from assms(1) have "distinct plev"
    by (simp add: strict_sorted_iff)
  ultimately have "k = i" using kl assms(2) by (simp add: nth_eq_iff_index_eq)
  with k show ?thesis by simp
qed


lemma tl_short: "length x \<le> 1 \<Longrightarrow> tl x = []"
  by (cases x) auto

lemma np_trapz_short: "length y \<le> 1 \<Longrightarrow> length x \<le> 1 \<Longrightarrow> np_trapz y x = Inr (Fin 0)"
  by (simp add: np_trapz_def np_diff_def broadcast2_def fsum_def tl_short)

text \<open>
  C9: on an increasing pressure axis, a column whose nearest LCL level is the 500 hPa
  reference level itself is integrated over the single level 500 hPa, and its adjustment
  is exactly zero, whatever the values of the integrand are.
\<close>

theorem zero_width_adjustment:
  assumes "sorted_wrt (<) plev_array"
    and "lcl_plev plev_array lcli = Inr k"
    and "plev_array ! k = plev_FT"
  shows "plev_FT_index plev_array = Inr k
    \<and> plev_500_to_lcl plev_array k k = [plev_FT]
    \<and> adjustment plev_array dhdp lcli = Inr (Fin 0)"
proof -
  from assms(2) have k: "k < length plev_array"
    using np_argmin_bound [of _ k] by (fastforce simp: lcl_plev_def)
  with assms have i: "plev_FT_index plev_array = Inr k"
    by (simp add: plev_FT_index_nth)
  from k assms(3) have p: "plev_500_to_lcl plev_array k k = [plev_FT]"
    by (simp add: plev_500_to_lcl_def py_slice_def take_Suc_conv_app_nth)
  have "length (dhdp_500_to_lcl plev_array dhdp k) \<le> 1"
    using assms(1) k
    by (simp add: dhdp_500_to_lcl_def sel_slice_def py_slice_def assms(3) [symmetric]
        searchsorted_left_nth searchsorted_right_nth)
  with p have "np_trapz (dhdp_500_to_lcl plev_array dhdp k) (plev_500_to_lcl plev_array k k) = Inr (Fin 0)"
    by (simp add: np_trapz_short)
  with i assms(2) p show ?thesis
    by (simp add: adjustment_def)
qed

theorem zero_width_adjustment_witness:
  "sorted_wrt (<) [10000, 50000, 85000, 100000 :: real]
   \<and> lcl_plev [10000, 50000, 85000, 100000] (Fin 51000) = Inr 1
   \<and> [10000, 50000, 85000, 100000] ! 1 = plev_FT
   \<and> adjustment [10000, 50000, 85000, 100000] [Fin 1, Fin 2, Fin 3, Fin 4] (Fin 51000) = Inr (Fin 0)"
proof -
  have s: "sorted_wrt (<) [10000, 50000, 85000, 100000 :: real]" by simp
  have l: "lcl_plev [10000, 50000, 85000, 100000] (Fin 51000) = Inr 1"
    by (simp add: lcl_plev_def np_argmin_def fsub_def)
  have r: "[10000, 50000, 85000, 100000] ! 1 = plev_FT" by (simp add: plev_FT_def)
  from zero_width_adjustment [OF s l r, of "[Fin 1, Fin 2, Fin 3, Fin 4]"] s l r
  show ?thesis by simp
qed

text \<open>
  C10: on an increasing pressure axis that has the 500 hPa level, a column whose nearest
  LCL level is at a pressure strictly below 500 hPa has an empty slice of the integrand
  and an empty slice of the pressure axis, and its adjustment is the defined value 0.0.
\<close>

theorem lcl_above_reference_adjustment:
  assumes "sorted_wrt (<) plev_array"
    and "plev_FT \<in> set plev_array"
    and "lcl_plev plev_array lcli = Inr k"
    and "plev_array ! k < plev_FT"
  shows "\<exists>i. plev_FT_index plev_array = Inr i
    \<and> dhdp_500_to_lcl plev_array dhdp k = []
    \<and> plev_500_to_lcl plev_array i k = []
    \<and> adjustment plev_array dhdp lcli = Inr (Fin 0)"
proof -
  from assms(3) have k: "k < length plev_array"
    using np_argmin_bound [of _ k] by (fastforce simp: lcl_plev_def)
  from assms(2) obtain i where il: "i < length plev_array" and ip: "plev_array ! i = plev_FT"
    by (auto simp: in_set_conv_nth)
  with assms(1) have i: "plev_FT_index plev_array = Inr i"
    by (simp add: plev_FT_index_nth)
  have ki: "k < i"
  proof (rule ccontr)
    assume "\<not> k < i"
    then have "i \<le> k" by simp
    with assms(1) k have "plev_array ! i \<le> plev_array ! k"
      by (cases "i = k") (auto simp: sorted_wrt_iff_nth_less less_imp_le)
    with assms(4) ip show False by simp
  qed
  have d: "dhdp_500_to_lcl plev_array dhdp k = []"
    using assms(1) k il ki
    by (simp add: dhdp_500_to_lcl_def sel_slice_def py_slice_def ip [symmetric]
        searchsorted_left_nth searchsorted_right_nth)
  have p: "plev_500_to_lcl plev_array i k = []"
    using ki by (simp add: plev_500_to_lcl_def py_slice_def)
  from d p i assms(3) show ?thesis
    by (simp add: adjustment_def np_trapz_short)
qed

theorem lcl_above_reference_adjustment_witness:
  "sorted_wrt (<) [10000, 50000, 85000, 100000 :: real]
   \<and> plev_FT \<in> set [10000, 50000, 85000, 100000]
   \<and> lcl_plev [10000, 50000, 85000, 100000] (Fin 9000) = Inr 0
   \<and> [10000, 50000, 85000, 100000] ! 0 < plev_FT
   \<and> adjustment [10000, 50000, 85000, 100000] [Fin 1, Fin 2, Fin 3, Fin 4] (Fin 9000) = Inr (Fin 0)"
proof -
  have s: "sorted_wrt (<) [10000, 50000, 85000, 100000 :: real]" by simp
  have m: "plev_FT \<in> set [10000, 50000, 85000, 100000]" by (simp add: plev_FT_def)
  have l: "lcl_plev [10000, 50000, 85000, 100000] (Fin 9000) = Inr 0"
    by (simp add: lcl_plev_def np_argmin_def fsub_def)
  have r: "[10000, 50000, 85000, 100000] ! 0 < plev_FT" by (simp add: plev_FT_def)
  from lcl_above_reference_adjustment [OF s m l r, of "[Fin 1, Fin 2, Fin 3, Fin 4]"] s m l r
  show ?thesis by auto
qed

lemma filter_gt_Nil: "\<forall>x\<in>set xs. (hi::real) < x \<Longrightarrow> length xs = length ys \<Longrightarrow>
    filter (\<lambda>(p, y). lo \<le> p \<and> p \<le> hi) (zip xs ys) = []"
  by (auto simp: filter_empty_conv dest!: set_zip_leftD)

lemma takeWhile_lt_Nil: "\<forall>x\<in>set ps. (p::real) \<le> x \<Longrightarrow> takeWhile (\<lambda>q. q < p) ps = []"
  by (cases ps) auto

lemma filter_range_slice:
  "sorted_wrt (<) plev \<Longrightarrow> length ys = length plev \<Longrightarrow>
   filter (\<lambda>(p, y). lo \<le> p \<and> p \<le> hi) (zip plev ys) =
     zip (sel_slice plev lo hi plev) (sel_slice plev lo hi ys)"
proof (induction plev arbitrary: ys)
  case Nil
  then show ?case by (simp add: sel_slice_def py_slice_def)
next
  case (Cons p ps)
  then obtain y ys' where ys: "ys = y # ys'" "length ys' = length ps"
    by (cases ys) auto
  from Cons.prems have gt: "\<forall>x\<in>set ps. p < x" and sps: "sorted_wrt (<) ps" by auto
  note IH = Cons.IH [OF sps ys(2)]
  consider "p < lo" "p \<le> hi" | "p < lo" "hi < p" | "lo \<le> p" "p \<le> hi" | "lo \<le> p" "hi < p"
    by linarith
  then show ?case
  proof cases
    case 1
    with IH ys show ?thesis
      by (simp add: sel_slice_def py_slice_def searchsorted_left_def
          searchsorted_right_def)
  next
    case 2
    with gt have "\<forall>x\<in>set ps. hi < x" by auto
    with 2 ys show ?thesis
      by (simp add: sel_slice_def py_slice_def searchsorted_left_def
          searchsorted_right_def filter_gt_Nil)
  next
    case 3
    with gt have "\<forall>x\<in>set ps. lo \<le> x" by auto
    then have "takeWhile (\<lambda>q. q < lo) ps = []" by (rule takeWhile_lt_Nil)
    with 3 IH ys show ?thesis
      by (simp add: sel_slice_def py_slice_def searchsorted_left_def
          searchsorted_right_def)
  next
    case 4
    with gt have "\<forall>x\<in>set ps. hi < x" by auto
    with 4 ys show ?thesis
      by (simp add: sel_slice_def py_slice_def searchsorted_left_def
          searchsorted_right_def filter_gt_Nil)
  qed
qed

lemma np_trapz_eq:
  "length y = length x \<Longrightarrow>
   np_trapz y x = Inr (fsum (map (\<lambda>v. fdiv v (Fin 2))
     (map2 fmul (map Fin (np_diff x)) (map2 fadd (tl y) (butlast y)))))"
  by (simp add: np_trapz_def broadcast2_def np_diff_def)

lemma np_trapz_trapezoid:
  "length y = length x \<Longrightarrow> np_trapz y x = Inr (trapezoid (zip x y))"
proof (induction y x rule: list_induct2)
  case Nil
  then show ?case by (simp add: np_trapz_eq np_diff_def fsum_def)
next
  case (Cons v vs p ps)
  show ?case
  proof (cases ps)
    case Nil
    with Cons.hyps show ?thesis by (simp add: np_trapz_eq np_diff_def fsum_def)
  next
    case (Cons p2 ps')
    with Cons.hyps obtain v2 vs' where vs: "vs = v2 # vs'" "length vs' = length ps'"
      by (cases vs) auto
    from Cons.IH Cons.hyps have "np_trapz vs ps = Inr (trapezoid (zip ps vs))" by simp
    with Cons.hyps Cons vs show ?thesis
      by (simp add: np_trapz_eq np_diff_def fsum_def)
  qed
qed


lemma lcl_plev_bound: "lcl_plev plev lcli = Inr k \<Longrightarrow> k < length plev"
  using np_argmin_bound [of "map (\<lambda>p. fabs (fsub (Fin p) lcli)) plev" k]
  by (simp add: lcl_plev_def)

lemma lcl_plev_nearest:
  assumes "lcl_plev plev (Fin l) = Inr k"
  shows "nearest_level plev l k"
proof -
  from assms have "np_argmin (map Fin (map (\<lambda>p. \<bar>p - l\<bar>) plev)) = Inr k"
    by (simp add: lcl_plev_def abs_dist_Fin)
  from np_argmin_Fin [OF this]
  have k: "k < length plev"
    and m: "\<forall>x\<in>set (map (\<lambda>p. \<bar>p - l\<bar>) plev). map (\<lambda>p. \<bar>p - l\<bar>) plev ! k \<le> x"
    by auto
  have "\<bar>plev ! k - l\<bar> \<le> \<bar>plev ! j - l\<bar>" if "j < length plev" for j
  proof -
    from that have "\<bar>plev ! j - l\<bar> \<in> set (map (\<lambda>p. \<bar>p - l\<bar>) plev)" by auto
    with m k show ?thesis by auto
  qed
  with k show ?thesis by (simp add: nearest_level_def)
qed

lemma adjustment_slices:
  assumes "sorted_wrt (<) plev" and "i < length plev" and "plev ! i = plev_FT"
    and "lcl_plev plev lcli = Inr k"
  shows "plev_500_to_lcl plev i k = sel_slice plev plev_FT (plev ! k) plev"
    and "dhdp_500_to_lcl plev dhdp k = py_slice dhdp i (Suc k)"
    and "adjustment plev dhdp lcli =
      np_trapz (sel_slice plev plev_FT (plev ! k) dhdp) (sel_slice plev plev_FT (plev ! k) plev)"
proof -
  from assms(4) have k: "k < length plev" by (rule lcl_plev_bound)
  from assms(1,2,3) have l: "searchsorted_left plev plev_FT = i"
    using searchsorted_left_nth [of plev i] by simp
  from assms(1) k have r: "searchsorted_right plev (plev ! k) = Suc k"
    by (rule searchsorted_right_nth)
  show p: "plev_500_to_lcl plev i k = sel_slice plev plev_FT (plev ! k) plev"
    by (simp add: plev_500_to_lcl_def sel_slice_def l r)
  show "dhdp_500_to_lcl plev dhdp k = py_slice dhdp i (Suc k)"
    by (simp add: dhdp_500_to_lcl_def sel_slice_def l r)
  from assms(1,2,3) have "plev_FT_index plev = Inr i" by (rule plev_FT_index_nth)
  with assms(4) p show "adjustment plev dhdp lcli =
      np_trapz (sel_slice plev plev_FT (plev ! k) dhdp) (sel_slice plev plev_FT (plev ! k) plev)"
    by (simp add: adjustment_def dhdp_500_to_lcl_def)
qed

lemma length_sel_slice:
  "length a = length b \<Longrightarrow> length (sel_slice plev lo hi a) = length (sel_slice plev lo hi b)"
  by (simp add: sel_slice_def py_slice_def)

subsection \<open>The adjustment is the trapezoidal integral up to the nearest level\<close>

lemma argmin_loop_constant: "argmin_loop (map (\<lambda>_. v) xs) i v min_ind = min_ind"
proof (induction xs arbitrary: i)
  case Nil
  then show ?case by simp
next
  case (Cons x xs)
  have "\<not> is_nan v \<Longrightarrow> fge v v" by (cases v) (auto simp: fge_def)
  with Cons show ?case by auto
qed

lemma lcl_plev_not_finite:
  assumes "plev \<noteq> []" and "\<forall>l. lcli \<noteq> Fin l"
  shows "lcl_plev plev lcli = Inr 0"
proof -
  from assms(2) obtain c where c: "\<forall>p. fabs (fsub (Fin p) lcli) = c"
    by (cases lcli) (auto simp: fsub_def)
  from assms(1) obtain p ps where "plev = p # ps" by (cases plev) auto
  with c show ?thesis
    using argmin_loop_constant [of c ps 1 0] by (simp add: lcl_plev_def np_argmin_def)
qed

lemma lcl_plev_level:
  assumes "plev \<noteq> []"
  shows "\<exists>k. lcl_plev plev lcli = Inr k
    \<and> (case lcli of Fin l \<Rightarrow> nearest_level plev l k | _ \<Rightarrow> k = 0)"
proof (cases "\<exists>l. lcli = Fin l")
  case True
  then obtain l where l: "lcli = Fin l" by blast
  from assms have "map (\<lambda>p. fabs (fsub (Fin p) (Fin l))) plev \<noteq> []" by simp
  from np_argmin_nonempty [OF this] obtain k where k: "lcl_plev plev (Fin l) = Inr k"
    by (auto simp: lcl_plev_def)
  with lcl_plev_nearest [OF k] l show ?thesis by simp
next
  case False
  then have "lcl_plev plev lcli = Inr 0" using assms by (simp add: lcl_plev_not_finite)
  with False show ?thesis by (cases lcli) auto
qed

text \<open>
  C1, as the code has it: on an increasing pressure axis that has the 500 hPa level, the
  level chosen for the LCL of a column is a level of the axis at the least absolute
  distance from the LCL pressure (the first level of the axis when the LCL pressure is not
  finite). When the pressure of that level is not below 500 hPa, the slice of the
  integrand holds the levels between 500 hPa and that level, both included, and the
  adjustment is the trapezoidal rule over those levels with the pressures themselves as
  abscissae. When the pressure of that level is below 500 hPa, the slice is empty and the
  adjustment is 0.0. There is one value for the column.
\<close>

theorem adjustment_nearest_level_trapezoid:
  assumes "sorted_wrt (<) plev_array"
    and "plev_FT \<in> set plev_array"
    and "length dhdp = length plev_array"
  shows "\<exists>k. lcl_plev plev_array lcli = Inr k
    \<and> (case lcli of Fin l \<Rightarrow> nearest_level plev_array l k | _ \<Rightarrow> k = 0)
    \<and> (plev_FT \<le> plev_array ! k \<longrightarrow>
          dhdp_500_to_lcl plev_array dhdp k
            = map snd (levels_between plev_array dhdp plev_FT (plev_array ! k))
          \<and> adjustment plev_array dhdp lcli
            = Inr (trapezoid (levels_between plev_array dhdp plev_FT (plev_array ! k))))
    \<and> (plev_array ! k < plev_FT \<longrightarrow>
          dhdp_500_to_lcl plev_array dhdp k = []
          \<and> adjustment plev_array dhdp lcli = Inr (Fin 0))"
proof -
  from assms(2) obtain i where i: "i < length plev_array" "plev_array ! i = plev_FT"
    by (auto simp: in_set_conv_nth)
  then have "plev_array \<noteq> []" by auto
  from lcl_plev_level [OF this] obtain k where k: "lcl_plev plev_array lcli = Inr k"
    and n: "case lcli of Fin l \<Rightarrow> nearest_level plev_array l k | _ \<Rightarrow> k = 0"
    by blast
  let ?hi = "plev_array ! k"
  let ?code = "filter (\<lambda>(p, y). plev_FT \<le> p \<and> p \<le> ?hi) (zip plev_array dhdp)"
  have lb: "?code =
      zip (sel_slice plev_array plev_FT ?hi plev_array) (sel_slice plev_array plev_FT ?hi dhdp)"
    using assms(1,3) by (rule filter_range_slice)
  have len: "length (sel_slice plev_array plev_FT ?hi dhdp)
      = length (sel_slice plev_array plev_FT ?hi plev_array)"
    using assms(3) by (rule length_sel_slice)
  have "adjustment plev_array dhdp lcli =
      np_trapz (sel_slice plev_array plev_FT ?hi dhdp) (sel_slice plev_array plev_FT ?hi plev_array)"
    using assms(1) i k by (rule adjustment_slices(3))
  with len lb have a: "adjustment plev_array dhdp lcli = Inr (trapezoid ?code)"
    by (simp add: np_trapz_trapezoid)
  have s: "dhdp_500_to_lcl plev_array dhdp k = map snd ?code"
    using len by (simp add: lb dhdp_500_to_lcl_def)
  have below: "levels_between plev_array dhdp plev_FT ?hi = ?code" if "plev_FT \<le> ?hi"
    using that by (simp add: levels_between_def)
  have above: "?code = []" if "?hi < plev_FT"
    using that by (auto simp: filter_empty_conv)
  from k n a s below above show ?thesis
    by (intro exI [of _ k]) auto
qed

lemmas adjustment_eval =
  adjustment_def plev_FT_index_def lcl_plev_def np_argmin_def fsub_def plev_FT_def
  dhdp_500_to_lcl_def plev_500_to_lcl_def sel_slice_def py_slice_def searchsorted_left_def
  searchsorted_right_def np_trapz_def np_diff_def broadcast2_def fsum_def

theorem adjustment_nearest_level_trapezoid_witness:
  "sorted_wrt (<) [10000, 50000, 85000, 100000 :: real]
   \<and> plev_FT \<in> set [10000, 50000, 85000, 100000]
   \<and> length [Fin 1, Fin 2, Fin 3, Fin 4] = length [10000, 50000, 85000, 100000 :: real]
   \<and> (\<exists>k. lcl_plev [10000, 50000, 85000, 100000] (Fin 95000) = Inr k
        \<and> nearest_level [10000, 50000, 85000, 100000] 95000 k
        \<and> dhdp_500_to_lcl [10000, 50000, 85000, 100000] [Fin 1, Fin 2, Fin 3, Fin 4] k
            = map snd (levels_between [10000, 50000, 85000, 100000] [Fin 1, Fin 2, Fin 3, Fin 4]
                plev_FT ([10000, 50000, 85000, 100000] ! k))
        \<and> adjustment [10000, 50000, 85000, 100000] [Fin 1, Fin 2, Fin 3, Fin 4] (Fin 95000)
            = Inr (trapezoid (levels_between [10000, 50000, 85000, 100000]
                [Fin 1, Fin 2, Fin 3, Fin 4] plev_FT ([10000, 50000, 85000, 100000] ! k))))
   \<and> adjustment [10000, 50000, 85000, 100000] [Fin 1, Fin 2, Fin 3, Fin 4] (Fin 95000)
        = Inr (Fin 140000)
   \<and> (\<exists>k. lcl_plev [10000, 50000, 85000, 100000] (Fin 9000) = Inr k
        \<and> nearest_level [10000, 50000, 85000, 100000] 9000 k
        \<and> dhdp_500_to_lcl [10000, 50000, 85000, 100000] [Fin 1, Fin 2, Fin 3, Fin 4] k = []
        \<and> adjustment [10000, 50000, 85000, 100000] [Fin 1, Fin 2, Fin 3, Fin 4] (Fin 9000)
            = Inr (Fin 0))"
proof -
  let ?P = "[10000, 50000, 85000, 100000 :: real]"
  let ?D = "[Fin 1, Fin 2, Fin 3, Fin 4]"
  have s: "sorted_wrt (<) ?P" by simp
  have m: "plev_FT \<in> set ?P" by (simp add: plev_FT_def)
  have l: "length ?D = length ?P" by simp
  have v: "adjustment ?P ?D (Fin 95000) = Inr (Fin 140000)"
    by (simp add: adjustment_eval)
  have k1: "lcl_plev ?P (Fin 95000) = Inr 3" by (simp add: adjustment_eval)
  have k2: "lcl_plev ?P (Fin 9000) = Inr 0" by (simp add: adjustment_eval)
  from adjustment_nearest_level_trapezoid [OF s m l, of "Fin 95000"] k1
  have a: "\<exists>k. lcl_plev ?P (Fin 95000) = Inr k
        \<and> nearest_level ?P 95000 k
        \<and> dhdp_500_to_lcl ?P ?D k = map snd (levels_between ?P ?D plev_FT (?P ! k))
        \<and> adjustment ?P ?D (Fin 95000) = Inr (trapezoid (levels_between ?P ?D plev_FT (?P ! k)))"
    by (auto simp: plev_FT_def)
  from adjustment_nearest_level_trapezoid [OF s m l, of "Fin 9000"] k2
  have b: "\<exists>k. lcl_plev ?P (Fin 9000) = Inr k
        \<and> nearest_level ?P 9000 k
        \<and> dhdp_500_to_lcl ?P ?D k = []
        \<and> adjustment ?P ?D (Fin 9000) = Inr (Fin 0)"
    by (auto simp: plev_FT_def)
  from s m l a v b show ?thesis by blast
qed

text \<open>
  A column whose nearest LCL level is the 300 hPa level: the levels between 500 hPa and
  that level, both included, are the levels 300 hPa and 500 hPa, and the trapezoidal rule
  over them is not zero; the slice taken by the code is empty and the adjustment is 0.0.
\<close>

theorem lcl_above_reference_slice_counterexample:
  "lcl_plev [10000, 30000, 50000, 85000, 100000] (Fin 31000) = Inr 1
   \<and> levels_between [10000, 30000, 50000, 85000, 100000] [Fin 1, Fin 2, Fin 7, Fin 3, Fin 4]
        plev_FT ([10000, 30000, 50000, 85000, 100000] ! 1) = [(30000, Fin 2), (50000, Fin 7)]
   \<and> trapezoid (levels_between [10000, 30000, 50000, 85000, 100000]
        [Fin 1, Fin 2, Fin 7, Fin 3, Fin 4] plev_FT ([10000, 30000, 50000, 85000, 100000] ! 1))
        = Fin 90000
   \<and> dhdp_500_to_lcl [10000, 30000, 50000, 85000, 100000] [Fin 1, Fin 2, Fin 7, Fin 3, Fin 4] 1
        = []
   \<and> adjustment [10000, 30000, 50000, 85000, 100000] [Fin 1, Fin 2, Fin 7, Fin 3, Fin 4]
        (Fin 31000) = Inr (Fin 0)"
  by (simp add: adjustment_eval levels_between_def)

subsection \<open>Propagation of missing values\<close>

lemma fadd_NaN_right [simp]: "fadd x NaN = NaN"
  by (cases x) auto

lemma fmul_NaN_right [simp]: "fmul x NaN = NaN"
  by (cases x) auto

lemma fdiv_NaN_right [simp]: "fdiv x NaN = NaN"
  by (cases x) auto

lemma trapezoid_NaN:
  "2 \<le> length ps \<Longrightarrow> NaN \<in> snd ` set ps \<Longrightarrow> trapezoid ps = NaN"
proof (induction ps rule: trapezoid.induct)
  case (1 p1 y1 p2 y2 rest)
  show ?case
  proof (cases "y1 = NaN \<or> y2 = NaN")
    case True
    then show ?thesis by auto
  next
    case False
    with "1.prems" have "NaN \<in> snd ` set rest" by auto
    then have "rest \<noteq> []" by auto
    then have "2 \<le> length ((p2, y2) # rest)" by (cases rest) auto
    with "1.IH" \<open>NaN \<in> snd ` set rest\<close> have "trapezoid ((p2, y2) # rest) = NaN" by simp
    then show ?thesis by simp
  qed
qed auto

lemma np_trapz_NaN:
  assumes "length y = length x" and "2 \<le> length y" and "NaN \<in> set y"
  shows "np_trapz y x = Inr NaN"
proof -
  from assms(1) have "snd ` set (zip x y) = set y"
    by (metis map_snd_zip set_map)
  with assms show ?thesis
    by (simp add: np_trapz_trapezoid trapezoid_NaN)
qed

lemma nth_in_py_slice:
  "i \<le> j \<Longrightarrow> j \<le> k \<Longrightarrow> k < length a \<Longrightarrow> a ! j \<in> set (py_slice a i (Suc k))"
proof -
  assume a: "i \<le> j" "j \<le> k" "k < length a"
  then have "py_slice a i (Suc k) ! (j - i) = a ! j" "j - i < length (py_slice a i (Suc k))"
    by (auto simp: py_slice_def)
  then show ?thesis by (metis nth_mem)
qed

lemma adjustment_NaN:
  assumes "sorted_wrt (<) plev" and "i < length plev" and "plev ! i = plev_FT"
    and "lcl_plev plev lcli = Inr k" and "i < k"
    and "length dhdp = length plev"
    and "i \<le> j" and "j \<le> k" and "dhdp ! j = NaN"
  shows "adjustment plev dhdp lcli = Inr NaN"
proof -
  from assms(4) have k: "k < length plev" by (rule lcl_plev_bound)
  let ?y = "sel_slice plev plev_FT (plev ! k) dhdp"
  let ?x = "sel_slice plev plev_FT (plev ! k) plev"
  have y: "?y = py_slice dhdp i (Suc k)"
    using adjustment_slices(2) [OF assms(1-4)] by (simp add: dhdp_500_to_lcl_def)
  have len: "length ?y = length ?x" using assms(6) by (rule length_sel_slice)
  from k assms(5,6) have two: "2 \<le> length ?y" by (simp add: y py_slice_def)
  from assms(6,7,8,9) k have "NaN \<in> set ?y"
    using nth_in_py_slice [of i j k dhdp] by (simp add: y)
  with len two have "np_trapz ?y ?x = Inr NaN" by (rule np_trapz_NaN)
  then show ?thesis using adjustment_slices(3) [OF assms(1-4)] by simp
qed

lemma for_each_length: "for_each body xs = Inr ys \<Longrightarrow> length ys = length xs"
  by (induction xs arbitrary: ys) (auto split: sum.splits)

lemma vtpw_length:
  "virtual_temperature_pressure_weighted plev vt pfull = Inr w \<Longrightarrow> length w = length plev"
  by (auto simp: virtual_temperature_pressure_weighted_def parts_def split: sum.splits
      dest: for_each_length)

lemma dhdp_level_NaN: "sd = NaN \<or> w = NaN \<Longrightarrow> dhdp_level Lv ps vt w sd p = NaN"
  by (auto simp: dhdp_level_def)

text \<open>
  C3, as the code has it: on an increasing pressure axis, when the slice from 500 hPa to the
  nearest LCL level has at least two levels and the integrand is undefined at a level of
  the slice (in particular because the saturation deficit or the pressure-weighted virtual
  temperature is undefined there), the adjustment of the column is NaN.
\<close>

theorem undefined_integrand_propagates:
  assumes "sorted_wrt (<) plev_array"
    and "i < length plev_array" and "plev_array ! i = plev_FT"
    and "lcl_plev plev_array lcli = Inr k" and "i < k"
    and "length virtual_temp = length plev_array"
    and "length pfull = length plev_array"
    and "length sat_def = length plev_array"
    and "virtual_temperature_pressure_weighted plev_array virtual_temp pfull = Inr vtpw"
    and "dhdp_column Lv plev_array virtual_temp pfull ps sat_def = Inr dhdp"
    and "i \<le> j" and "j \<le> k"
    and "sat_def ! j = NaN \<or> vtpw ! j = NaN \<or> dhdp ! j = NaN"
  shows "dhdp ! j = NaN
    \<and> adjustment plev_array dhdp lcli = Inr NaN
    \<and> column_adjustment Lv plev_array virtual_temp pfull ps sat_def lcli = Inr NaN"
proof -
  from assms(4) have k: "k < length plev_array" by (rule lcl_plev_bound)
  from assms(9) have w: "length vtpw = length plev_array" by (rule vtpw_length)
  from assms(9,10) have d: "dhdp = map (\<lambda>(vt, w, sd, p). dhdp_level Lv ps vt w sd p)
      (zip virtual_temp (zip vtpw (zip sat_def pfull)))"
    by (simp add: dhdp_column_def)
  with assms(6,7,8) w have len: "length dhdp = length plev_array" by simp
  from k assms(12) have j: "j < length plev_array" by simp
  with assms(6,7,8) w have
    "dhdp ! j = dhdp_level Lv ps (virtual_temp ! j) (vtpw ! j) (sat_def ! j) (pfull ! j)"
    by (simp add: d)
  with assms(13) have n: "dhdp ! j = NaN" by (auto simp: dhdp_level_NaN)
  have "adjustment plev_array dhdp lcli = Inr NaN"
    using assms(1-5) len assms(11,12) n by (rule adjustment_NaN)
  with n assms(10) show ?thesis by (simp add: column_adjustment_def)
qed

subsection \<open>Evaluation at concrete columns\<close>

lemmas column_eval =
  virtual_temperature_pressure_weighted_def parts_def part_step_def part_at_def
  virtual_temp_by_p_def inv_pfull_def sel_slice_def py_slice_def searchsorted_left_def
  searchsorted_right_def xr_integrate_def np_diff_def fsum_def upt_conv_Cons
  dhdp_column_def dhdp_level_def

theorem undefined_integrand_propagates_witness:
  "sorted_wrt (<) [10000, 50000, 85000, 100000 :: real]
   \<and> [10000, 50000, 85000, 100000] ! 1 = plev_FT
   \<and> lcl_plev [10000, 50000, 85000, 100000] (Fin 95000) = Inr 3
   \<and> virtual_temperature_pressure_weighted [10000, 50000, 85000, 100000]
        [Fin 280, Fin 280, Fin 280, Fin 280] [Fin 10000, Fin 50000, Fin 85000, Fin 100000]
        = Inr [Fin 280, Fin 280, Fin 280, Fin 280]
   \<and> dhdp_column 2500840 [10000, 50000, 85000, 100000]
        [Fin 280, Fin 280, Fin 280, Fin 280] [Fin 10000, Fin 50000, Fin 85000, Fin 100000]
        (Fin 101325) [Fin 0, NaN, Fin 0, Fin 0] = Inr [Fin 0, NaN, Fin 0, Fin 0]
   \<and> [Fin 0, NaN, Fin 0, Fin 0] ! 1 = NaN
   \<and> column_adjustment 2500840 [10000, 50000, 85000, 100000]
        [Fin 280, Fin 280, Fin 280, Fin 280] [Fin 10000, Fin 50000, Fin 85000, Fin 100000]
        (Fin 101325) [Fin 0, NaN, Fin 0, Fin 0] (Fin 95000) = Inr NaN"
proof -
  let ?P = "[10000, 50000, 85000, 100000 :: real]"
  let ?VT = "[Fin 280, Fin 280, Fin 280, Fin 280]"
  let ?PF = "[Fin 10000, Fin 50000, Fin 85000, Fin 100000]"
  let ?SD = "[Fin 0, NaN, Fin 0, Fin 0]"
  have s: "sorted_wrt (<) ?P" by simp
  have r: "?P ! 1 = plev_FT" by (simp add: plev_FT_def)
  have l: "lcl_plev ?P (Fin 95000) = Inr 3"
    by (simp add: lcl_plev_def np_argmin_def fsub_def)
  have w: "virtual_temperature_pressure_weighted ?P ?VT ?PF = Inr ?VT"
    by (simp add: column_eval)
  have d: "dhdp_column 2500840 ?P ?VT ?PF (Fin 101325) ?SD = Inr [Fin 0, NaN, Fin 0, Fin 0]"
    by (simp add: w dhdp_column_def dhdp_level_def)
  have n: "?SD ! 1 = NaN \<or> ?VT ! 1 = NaN \<or> [Fin 0, NaN, Fin 0, Fin 0] ! 1 = NaN" by simp
  from undefined_integrand_propagates [OF s _ r l _ _ _ _ w d _ _ n] s r l w d
  show ?thesis by simp
qed

text \<open>
  When the nearest LCL level is the 500 hPa level, the slice has one level and the
  adjustment is 0.0 even though the integrand is undefined there.
\<close>

theorem single_level_slice_counterexample:
  "dhdp_500_to_lcl [10000, 50000, 85000, 100000] [Fin 1, NaN, Fin 3, Fin 4] 1 = [NaN]
   \<and> lcl_plev [10000, 50000, 85000, 100000] (Fin 51000) = Inr 1
   \<and> adjustment [10000, 50000, 85000, 100000] [Fin 1, NaN, Fin 3, Fin 4] (Fin 51000) = Inr (Fin 0)
   \<and> column_adjustment 2500840 [10000, 50000, 85000, 100000]
        [Fin 280, Fin 280, Fin 280, Fin 280] [Fin 10000, Fin 50000, Fin 85000, Fin 100000]
        (Fin 101325) [Fin (1 / 1000), NaN, Fin (1 / 1000), Fin (1 / 1000)] (Fin 51000) = Inr (Fin 0)"
proof -
  let ?P = "[10000, 50000, 85000, 100000 :: real]"
  let ?VT = "[Fin 280, Fin 280, Fin 280, Fin 280]"
  let ?PF = "[Fin 10000, Fin 50000, Fin 85000, Fin 100000]"
  have w: "virtual_temperature_pressure_weighted ?P ?VT ?PF = Inr ?VT"
    by (simp add: column_eval)
  have "dhdp_500_to_lcl ?P [Fin 1, NaN, Fin 3, Fin 4] 1 = [NaN]"
    by (simp add: adjustment_eval)
  moreover have "lcl_plev ?P (Fin 51000) = Inr 1"
    by (simp add: adjustment_eval)
  moreover have "adjustment ?P [Fin 1, NaN, Fin 3, Fin 4] (Fin 51000) = Inr (Fin 0)"
    by (simp add: adjustment_eval)
  moreover have "column_adjustment 2500840 ?P ?VT ?PF
        (Fin 101325) [Fin (1 / 1000), NaN, Fin (1 / 1000), Fin (1 / 1000)] (Fin 51000) = Inr (Fin 0)"
    by (simp add: column_adjustment_def w dhdp_column_def dhdp_level_def adjustment_eval)
  ultimately show ?thesis by simp
qed

subsection \<open>The bottom level of the pressure-weighted virtual temperature\<close>

lemma for_each_nth:
  "for_each body xs = Inr ys \<Longrightarrow> i < length xs \<Longrightarrow> body (xs ! i) = Inr (ys ! i)"
proof (induction xs arbitrary: ys i)
  case Nil
  then show ?case by simp
next
  case (Cons x xs)
  then show ?case
    by (cases i) (auto split: sum.splits)
qed

lemma parts_nth:
  assumes "parts plev vt pfull = Inr ps" and "k < length plev"
  shows "part_at plev (virtual_temp_by_p vt pfull) k = Inr (fst (ps ! k))"
    and "part_at plev (inv_pfull pfull) k = Inr (snd (ps ! k))"
proof -
  from assms have "part_step plev vt pfull k = Inr (ps ! k)"
    using for_each_nth [of "part_step plev vt pfull" "[0..<length plev]" ps k]
    by (simp add: parts_def)
  then have "part_at plev (virtual_temp_by_p vt pfull) k = Inr (fst (ps ! k))
      \<and> part_at plev (inv_pfull pfull) k = Inr (snd (ps ! k))"
    by (cases "ps ! k") (auto simp: part_step_def split: sum.splits)
  then show "part_at plev (virtual_temp_by_p vt pfull) k = Inr (fst (ps ! k))"
    and "part_at plev (inv_pfull pfull) k = Inr (snd (ps ! k))"
    by simp_all
qed

lemma last_level_index:
  assumes "sorted_wrt (<) (plev :: real list)" and "k < length plev"
  shows "plev ! k = last plev \<longleftrightarrow> Suc k = length plev"
proof -
  from assms(2) have ne: "plev \<noteq> []" by auto
  then have l: "last plev = plev ! (length plev - 1)" by (rule last_conv_nth)
  from assms(1) have "distinct plev" by (simp add: strict_sorted_iff)
  with assms(2) ne have "plev ! k = plev ! (length plev - 1) \<longleftrightarrow> k = length plev - 1"
    by (simp add: nth_eq_iff_index_eq)
  with l assms(2) show ?thesis by auto
qed

lemma count_in_range:
  assumes "sorted_wrt (<) plev"
  shows "length (filter (\<lambda>p. lo \<le> p \<and> p \<le> hi) plev) = length (sel_slice plev lo hi plev)"
proof -
  have "map fst (filter (\<lambda>(p, y). lo \<le> p \<and> p \<le> hi) (zip plev (map (\<lambda>_. NaN) plev)))
      = filter (\<lambda>p. lo \<le> p \<and> p \<le> hi) plev"
    by (induction plev) auto
  moreover have "filter (\<lambda>(p, y). lo \<le> p \<and> p \<le> hi) (zip plev (map (\<lambda>_. NaN) plev)) =
     zip (sel_slice plev lo hi plev) (sel_slice plev lo hi (map (\<lambda>_. NaN) plev))"
    using assms by (simp add: filter_range_slice)
  moreover have "length (sel_slice plev lo hi (map (\<lambda>_. NaN) plev)) = length (sel_slice plev lo hi plev)"
    by (rule length_sel_slice) simp
  ultimately have "length (filter (\<lambda>p. lo \<le> p \<and> p \<le> hi) plev)
      = length (zip (sel_slice plev lo hi plev) (sel_slice plev lo hi (map (\<lambda>_. NaN) plev)))"
    by (metis length_map)
  also have "\<dots> = length (sel_slice plev lo hi plev)"
    by (simp add: \<open>length (sel_slice plev lo hi (map (\<lambda>_. NaN) plev)) = length (sel_slice plev lo hi plev)\<close>)
  finally show ?thesis .
qed

lemma part_at_last:
  assumes "sorted_wrt (<) plev" and "Suc k = length plev" and "length f = length plev"
  shows "part_at plev f k =
    (if searchsorted_right plev 100000 \<le> k then Inl IndexError else Inr (f ! k))"
proof -
  from assms have k: "k < length plev" by simp
  with assms(1,2) have l: "plev ! k = last plev" by (simp add: last_level_index)
  from assms(1) k have s: "searchsorted_left plev (plev ! k) = k" by (rule searchsorted_left_nth)
  have "searchsorted_right plev 100000 \<le> length plev"
    by (simp add: searchsorted_right_def length_takeWhile_le)
  with assms(2) have "searchsorted_right plev 100000 \<le> k \<or> searchsorted_right plev 100000 = Suc k"
    by auto
  then show ?thesis
  proof
    assume "searchsorted_right plev 100000 \<le> k"
    then show ?thesis
      using l by (simp add: part_at_def sel_slice_def py_slice_def s [unfolded l] Let_def)
  next
    assume r: "searchsorted_right plev 100000 = Suc k"
    from k assms(3) have "take (Suc 0) (drop k f) = [f ! k]"
      by (simp add: take_Suc_conv_app_nth)
    with r show ?thesis
      using l by (simp add: part_at_def sel_slice_def py_slice_def s [unfolded l] Let_def)
  qed
qed

lemma fdiv_pointwise: "q \<noteq> 0 \<Longrightarrow> fdiv (fdiv (Fin t) (Fin q)) (fdiv (Fin 1) (Fin q)) = Fin t"
  by simp

text \<open>
  C4, as the code has it: on an increasing pressure axis, when the loop over the levels
  completes and a single level of the axis lies between the level being processed and
  1000 hPa, the two entries stored for that level are the values of \<open>T\<^sub>v/p\<close> and \<open>1/p\<close> at
  the level itself, and for a defined virtual temperature and a defined nonzero pressure
  the pressure-weighted virtual temperature at that level is the quotient of these two
  values, a defined value.
\<close>

theorem bottom_level_degenerate:
  assumes "sorted_wrt (<) plev_array"
    and "length virtual_temp = length plev_array"
    and "length pfull = length plev_array"
    and "parts plev_array virtual_temp pfull = Inr ps"
    and "k < length plev_array"
    and "length (filter (\<lambda>p. plev_array ! k \<le> p \<and> p \<le> 100000) plev_array) = 1"
    and "virtual_temp ! k = Fin t" and "pfull ! k = Fin q" and "q \<noteq> 0"
  shows "ps ! k = (fdiv (virtual_temp ! k) (pfull ! k), fdiv (Fin 1) (pfull ! k))
    \<and> (\<exists>vtpw r. virtual_temperature_pressure_weighted plev_array virtual_temp pfull = Inr vtpw
          \<and> vtpw ! k = fdiv (fst (ps ! k)) (snd (ps ! k))
          \<and> vtpw ! k = Fin r)"
proof -
  let ?n = "length plev_array"
  let ?r = "searchsorted_right plev_array 100000"
  let ?f1 = "virtual_temp_by_p virtual_temp pfull"
  let ?f2 = "inv_pfull pfull"
  from assms(5) have n: "?n - 1 < ?n" "Suc (?n - 1) = ?n" by auto
  have f: "length ?f1 = ?n" "length ?f2 = ?n"
    using assms(2,3) by (simp_all add: virtual_temp_by_p_def inv_pfull_def)
  \<comment> \<open>the loop went through its last pass, so the last level is within 1000 hPa\<close>
  have "part_at plev_array ?f1 (?n - 1) = Inr (fst (ps ! (?n - 1)))"
    using assms(4) n(1) by (rule parts_nth(1))
  then have r: "\<not> ?r \<le> ?n - 1"
    using part_at_last [OF assms(1) n(2) f(1)] by (auto split: if_splits)
  have "?r \<le> ?n" by (simp add: searchsorted_right_def length_takeWhile_le)
  with r have rn: "?r = ?n" by simp
  \<comment> \<open>so a level with a single level in range is the last one\<close>
  have "length (sel_slice plev_array (plev_array ! k) 100000 plev_array) = 1"
    using assms(6) count_in_range [OF assms(1)] by simp
  then have "?n - k = 1"
    using assms(1,5) rn by (simp add: sel_slice_def py_slice_def searchsorted_left_nth)
  then have k: "Suc k = ?n" by simp
  from r k have rk: "\<not> ?r \<le> k" by simp
  have "part_at plev_array ?f1 k = Inr (fst (ps ! k))" "part_at plev_array ?f2 k = Inr (snd (ps ! k))"
    using assms(4,5) by (rule parts_nth)+
  with rk have "fst (ps ! k) = ?f1 ! k" "snd (ps ! k) = ?f2 ! k"
    using part_at_last [OF assms(1) k f(1)] part_at_last [OF assms(1) k f(2)] by simp_all
  with assms(2,3,5) have p: "ps ! k = (fdiv (virtual_temp ! k) (pfull ! k), fdiv (Fin 1) (pfull ! k))"
    by (simp add: virtual_temp_by_p_def inv_pfull_def prod_eq_iff)
  from assms(4) have "length ps = ?n"
    using for_each_length [of _ "[0..<?n]" ps] by (simp add: parts_def)
  with assms(5) have q: "map (\<lambda>(part1, part2). fdiv part1 part2) ps ! k
      = fdiv (fst (ps ! k)) (snd (ps ! k))"
    by (simp add: case_prod_beta)
  with p assms(7,8,9) have t: "map (\<lambda>(part1, part2). fdiv part1 part2) ps ! k = Fin t"
    by simp
  from assms(4) have w: "virtual_temperature_pressure_weighted plev_array virtual_temp pfull
      = Inr (map (\<lambda>(part1, part2). fdiv part1 part2) ps)"
    by (simp add: virtual_temperature_pressure_weighted_def)
  from w q t
  have "\<exists>vtpw r. virtual_temperature_pressure_weighted plev_array virtual_temp pfull = Inr vtpw
      \<and> vtpw ! k = fdiv (fst (ps ! k)) (snd (ps ! k)) \<and> vtpw ! k = Fin r"
    by blast
  with p show ?thesis by (rule conjI)
qed

theorem bottom_level_degenerate_witness:
  "sorted_wrt (<) [10000, 50000, 85000, 100000 :: real]
   \<and> length (filter (\<lambda>p. [10000, 50000, 85000, 100000] ! 3 \<le> p \<and> p \<le> 100000)
        [10000, 50000, 85000, 100000 :: real]) = 1
   \<and> (\<exists>ps. parts [10000, 50000, 85000, 100000] [Fin 280, Fin 282, Fin 285, Fin 290]
          [Fin 10000, Fin 50000, Fin 85000, Fin 100000] = Inr ps
        \<and> ps ! 3 = (fdiv (Fin 290) (Fin 100000), fdiv (Fin 1) (Fin 100000)))
   \<and> (\<exists>vtpw r. virtual_temperature_pressure_weighted [10000, 50000, 85000, 100000]
          [Fin 280, Fin 282, Fin 285, Fin 290] [Fin 10000, Fin 50000, Fin 85000, Fin 100000]
          = Inr vtpw
        \<and> vtpw ! 3 = fdiv (fdiv (Fin 290) (Fin 100000)) (fdiv (Fin 1) (Fin 100000))
        \<and> vtpw ! 3 = Fin r)"
proof -
  let ?P = "[10000, 50000, 85000, 100000 :: real]"
  let ?VT = "[Fin 280, Fin 282, Fin 285, Fin 290]"
  let ?PF = "[Fin 10000, Fin 50000, Fin 85000, Fin 100000]"
  let ?ps = "[(Fin (59641 / 68), Fin (2121 / 680)), (Fin (69453 / 340), Fin (489 / 680)),
             (Fin (3189 / 68), Fin (111 / 680)), (Fin (29 / 10000), Fin (1 / 100000))]"
  have s: "sorted_wrt (<) ?P" by simp
  have p: "parts ?P ?VT ?PF = Inr ?ps"
    by (simp add: column_eval)
  have c: "length (filter (\<lambda>p. ?P ! 3 \<le> p \<and> p \<le> 100000) ?P) = 1" by simp
  have t: "?VT ! 3 = Fin 290" and q: "?PF ! 3 = Fin 100000" by simp_all
  from bottom_level_degenerate [OF s _ _ p _ c t q]
  have "?ps ! 3 = (fdiv (Fin 290) (Fin 100000), fdiv (Fin 1) (Fin 100000))
    \<and> (\<exists>vtpw r. virtual_temperature_pressure_weighted ?P ?VT ?PF = Inr vtpw
        \<and> vtpw ! 3 = fdiv (fdiv (Fin 290) (Fin 100000)) (fdiv (Fin 1) (Fin 100000))
        \<and> vtpw ! 3 = Fin r)"
    by simp
  with s p c show ?thesis by blast
qed

subsection \<open>The bottom level in float64\<close>

lemma binade_from_step:
  "0 < steps \<Longrightarrow> binade_from steps e x =
     (if pow2 (e + 1) \<le> x then binade_from (steps - 1) (e + 1) x
      else if x < pow2 e then binade_from (steps - 1) (e - 1) x
      else e)"
  by (cases steps) auto

lemmas f64_eval =
  f64_div_def f64_round_def binade_def binade_from_step pow2_def round_half_even_def Let_def

lemma f64_div_290_100000: "f64_div 290 100000 = 6686944726719712 / 2 ^ 61"
  by (simp add: f64_eval)

lemma f64_div_1_100000: "f64_div 1 100000 = 5902958103587057 / 2 ^ 69"
  by (simp add: f64_eval)

text \<open>
  For a virtual temperature of 290 K and a pressure of 100000 Pa at the bottom level, the
  quotient of the two stored values in float64 is one unit in the last place below 290:
  it is not the virtual temperature.
\<close>

theorem bottom_level_rounding_counterexample:
  "bottom_level_ratio_f64 290 100000 = 290 - 1 / 2 ^ 44
   \<and> bottom_level_ratio_f64 290 100000 \<noteq> 290"
proof -
  have "bottom_level_ratio_f64 290 100000
      = f64_div (6686944726719712 / 2 ^ 61) (5902958103587057 / 2 ^ 69)"
    by (simp only: bottom_level_ratio_f64_def f64_div_290_100000 f64_div_1_100000)
  also have "\<dots> = 290 - 1 / 2 ^ 44"
    by (simp add: f64_eval)
  finally show ?thesis by simp
qed

section \<open>Properties of the ascent fractions\<close>

lemma nansum_if:
  "\<forall>p\<in>set ps. g p = (if P p then Fin (r p) else NaN) \<Longrightarrow>
   nansum (map g ps) = Fin (sum_list (map r (filter P ps)))"
proof (induction ps)
  case Nil
  then show ?case by (simp add: nansum_def fsum_def)
next
  case (Cons p ps)
  then have "nansum (map g ps) = Fin (sum_list (map r (filter P ps)))" by simp
  moreover from Cons.prems have "g p = (if P p then Fin (r p) else NaN)" by simp
  ultimately show ?case
    by (auto simp: nansum_def fsum_def notnull_def)
qed

lemma points_lat: "(m, la, lo) \<in> set (points (n_month, n_lat, n_lon)) \<Longrightarrow> la < n_lat"
  by auto

lemma fmul_one [simp]: "fmul v (Fin 1) = v"
  by (cases v) (auto simp: signed_inf_def)

lemma weights_3Darray_eq:
  "weights_3Darray weights landmask m la lo
     = (if notnull (landmask m la lo) then NaN else weights la)"
  by (simp add: weights_3Darray_def xr_where_def)

lemma grid_sum_where:
  assumes "\<forall>lat<n_lat. weights lat = Fin (w lat)"
  shows "grid_sum (n_month, n_lat, n_lon)
           (\<lambda>m la lo. xr_where (c m la lo) (weights_3Darray weights landmask m la lo))
         = Fin (sum_list (map (\<lambda>(m, la, lo). w la)
             (filter (\<lambda>p. unmasked landmask p \<and> (case p of (m, la, lo) \<Rightarrow> c m la lo))
                (points (n_month, n_lat, n_lon)))))"
  unfolding grid_sum_def
proof (rule nansum_if, rule ballI)
  fix p assume p: "p \<in> set (points (n_month, n_lat, n_lon))"
  obtain m la lo where t: "p = (m, la, lo)" by (cases p) auto
  with p have "la < n_lat" using points_lat by blast
  with assms have "weights la = Fin (w la)" by simp
  with t show "(case p of (m, la, lo) \<Rightarrow>
        xr_where (c m la lo) (weights_3Darray weights landmask m la lo)) =
       (if unmasked landmask p \<and> (case p of (m, la, lo) \<Rightarrow> c m la lo)
        then Fin (case p of (m, la, lo) \<Rightarrow> w la) else NaN)"
    by (simp add: weights_3Darray_eq xr_where_def unmasked_def)
qed

lemma grid_sum_weights:
  assumes "\<forall>lat<n_lat. weights lat = Fin (w lat)"
  shows "grid_sum (n_month, n_lat, n_lon) (weights_3Darray weights landmask)
         = Fin (sum_list (map (\<lambda>(m, la, lo). w la)
             (filter (unmasked landmask) (points (n_month, n_lat, n_lon)))))"
  using grid_sum_where [OF assms, of n_month n_lon "\<lambda>_ _ _. True" landmask]
  by (simp add: xr_where_def)

lemma calc_ascent_frac_fraction:
  assumes "\<forall>lat<n_lat. weights lat = Fin (w lat)"
  shows "calc_ascent_frac (n_month, n_lat, n_lon) wap500 weights landmask
    = weighted_fraction (n_month, n_lat, n_lon) w (unmasked landmask)
        (\<lambda>(m, la, lo). flt (wap500 m la lo) (Fin 0))"
  using grid_sum_where [OF assms] grid_sum_weights [OF assms]
  by (simp add: calc_ascent_frac_def weighted_fraction_def)

lemma proportion_fraction:
  assumes "\<forall>lat<n_lat. weights lat = Fin (w lat)"
  shows "proportion_overcome_conv_threshold (n_month, n_lat, n_lon) hsfc hsat500 weights landmask
    = weighted_fraction (n_month, n_lat, n_lon) w (unmasked landmask)
        (\<lambda>(m, la, lo). fgt (fsub (hsfc m la lo) (hsat500 m la lo)) (Fin 0))"
  using grid_sum_where [OF assms] grid_sum_weights [OF assms]
  by (simp add: proportion_overcome_conv_threshold_def weighted_fraction_def)


lemma flt_velocity_ascent: "finite_or_missing v \<Longrightarrow> flt v (Fin 0) = velocity_ascent v"
  by (cases v) (auto simp: finite_or_missing_def)

lemma fgt_instability_ascent:
  "finite_or_missing h \<Longrightarrow> finite_or_missing a \<Longrightarrow> finite_or_missing s \<Longrightarrow>
   fgt (fsub (fsub h (fmul a (Fin e))) s) (Fin 0) = instability_ascent e h a s"
  by (cases h; cases a; cases s) (auto simp: finite_or_missing_def fgt_def fsub_def mult.commute)

lemma weighted_fraction_cong:
  "\<forall>p\<in>set (points s). ascent p = ascent' p \<Longrightarrow>
   weighted_fraction s w um ascent = weighted_fraction s w um ascent'"
proof -
  assume "\<forall>p\<in>set (points s). ascent p = ascent' p"
  then have "filter (\<lambda>p. um p \<and> ascent p) (points s) = filter (\<lambda>p. um p \<and> ascent' p) (points s)"
    by (auto intro: filter_cong)
  then show ?thesis by (simp add: weighted_fraction_def)
qed

text \<open>
  C6: with finite weights and fields that are finite or missing, the velocity-based
  fraction is the weighted fraction of the points whose 500 hPa vertical velocity is
  strictly negative, the instability-based fraction is the weighted fraction of the points
  whose residual \<open>hsfc - ehat * adjustment - hsat_ref\<close> is strictly positive, and the
  objective is the absolute difference of the two.
\<close>

theorem ascent_predicates:
  assumes "\<forall>lat<n_lat. weights lat = Fin (w lat)"
    and "\<forall>(m, la, lo)\<in>set (points (n_month, n_lat, n_lon)).
           finite_or_missing (wap500 m la lo) \<and> finite_or_missing (hsfc m la lo)
           \<and> finite_or_missing (adjustment' m la lo) \<and> finite_or_missing (hsat500 m la lo)"
  shows "calc_ascent_frac (n_month, n_lat, n_lon) wap500 weights landmask
      = weighted_fraction (n_month, n_lat, n_lon) w (unmasked landmask)
          (\<lambda>(m, la, lo). velocity_ascent (wap500 m la lo))
    \<and> proportion_overcome_conv_threshold (n_month, n_lat, n_lon)
        (\<lambda>m la lo. fsub (hsfc m la lo) (fmul (adjustment' m la lo) (Fin ehat)))
        hsat500 weights landmask
      = weighted_fraction (n_month, n_lat, n_lon) w (unmasked landmask)
          (\<lambda>(m, la, lo). instability_ascent ehat (hsfc m la lo) (adjustment' m la lo)
             (hsat500 m la lo))
    \<and> func (n_month, n_lat, n_lon) weights landmask (Fin ehat) hsfc adjustment' hsat500 wap500
      = fabs (fsub
          (weighted_fraction (n_month, n_lat, n_lon) w (unmasked landmask)
            (\<lambda>(m, la, lo). velocity_ascent (wap500 m la lo)))
          (weighted_fraction (n_month, n_lat, n_lon) w (unmasked landmask)
            (\<lambda>(m, la, lo). instability_ascent ehat (hsfc m la lo) (adjustment' m la lo)
               (hsat500 m la lo))))"
proof -
  let ?s = "(n_month, n_lat, n_lon)"
  have v: "calc_ascent_frac ?s wap500 weights landmask
      = weighted_fraction ?s w (unmasked landmask) (\<lambda>(m, la, lo). velocity_ascent (wap500 m la lo))"
    unfolding calc_ascent_frac_fraction [OF assms(1)]
    by (rule weighted_fraction_cong) (use assms(2) in \<open>auto simp: flt_velocity_ascent\<close>)
  have i: "proportion_overcome_conv_threshold ?s
        (\<lambda>m la lo. fsub (hsfc m la lo) (fmul (adjustment' m la lo) (Fin ehat)))
        hsat500 weights landmask
      = weighted_fraction ?s w (unmasked landmask)
          (\<lambda>(m, la, lo). instability_ascent ehat (hsfc m la lo) (adjustment' m la lo)
             (hsat500 m la lo))"
    unfolding proportion_fraction [OF assms(1)]
    by (rule weighted_fraction_cong) (use assms(2) in \<open>auto simp: fgt_instability_ascent\<close>)
  from v i show ?thesis by (simp add: func_def)
qed

lemmas fraction_eval =
  weighted_fraction_def unmasked_def notnull_def upt_conv_Cons

theorem ascent_predicates_witness:
  "unit_weights 0 = Fin 1
   \<and> weighted_fraction (1, 1, 3) (\<lambda>_. 1) (unmasked (\<lambda>_ _ _. NaN))
        (\<lambda>(m, la, lo). velocity_ascent ([Fin (- 1), Fin 0, Fin 2] ! lo)) = Fin (1 / 3)
   \<and> weighted_fraction (1, 1, 3) (\<lambda>_. 1) (unmasked (\<lambda>_ _ _. NaN))
        (\<lambda>(m, la, lo). instability_ascent (15 / 100) (Fin 10) (Fin 20) ([Fin 6, Fin 7, Fin 8] ! lo))
      = Fin (1 / 3)
   \<and> func (1, 1, 3) unit_weights (\<lambda>_ _ _. NaN) (Fin (15 / 100)) (\<lambda>_ _ _. Fin 10)
        (\<lambda>_ _ _. Fin 20) (\<lambda>_ _ lo. [Fin 6, Fin 7, Fin 8] ! lo)
        (\<lambda>_ _ lo. [Fin (- 1), Fin 0, Fin 2] ! lo) = Fin 0"
proof -
  have w: "\<forall>lat<1. unit_weights lat = Fin ((\<lambda>_. 1) lat)" by (simp add: unit_weights_def)
  have u: "unit_weights 0 = Fin 1" by (simp add: unit_weights_def)
  have f: "\<forall>(m, la, lo)\<in>set (points (1, 1, 3)).
           finite_or_missing ([Fin (- 1), Fin 0, Fin 2] ! lo) \<and> finite_or_missing (Fin 10)
           \<and> finite_or_missing (Fin 20) \<and> finite_or_missing ([Fin 6, Fin 7, Fin 8] ! lo)"
    by (simp add: finite_or_missing_def upt_conv_Cons)
  have a: "weighted_fraction (1, 1, 3) (\<lambda>_. 1) (unmasked (\<lambda>_ _ _. NaN))
        (\<lambda>(m, la, lo). velocity_ascent ([Fin (- 1), Fin 0, Fin 2] ! lo)) = Fin (1 / 3)"
    by (simp add: fraction_eval)
  have b: "weighted_fraction (1, 1, 3) (\<lambda>_. 1) (unmasked (\<lambda>_ _ _. NaN))
        (\<lambda>(m, la, lo). instability_ascent (15 / 100) (Fin 10) (Fin 20) ([Fin 6, Fin 7, Fin 8] ! lo))
      = Fin (1 / 3)"
    by (simp add: fraction_eval)
  from ascent_predicates [of 1 unit_weights "\<lambda>_. 1" 1 3 "\<lambda>_ _ lo. [Fin (- 1), Fin 0, Fin 2] ! lo"
      "\<lambda>_ _ _. Fin 10" "\<lambda>_ _ _. Fin 20" "\<lambda>_ _ lo. [Fin 6, Fin 7, Fin 8] ! lo" "\<lambda>_ _ _. NaN" "15 / 100",
      OF w f] u a b
  show ?thesis by (simp add: fsub_def)
qed

subsection \<open>Range of the fraction, and the unweighted count\<close>

lemma sum_list_filter_le:
  "\<forall>x\<in>set xs. (0::real) \<le> r x \<Longrightarrow> sum_list (map r (filter Q xs)) \<le> sum_list (map r xs)"
  by (induction xs) auto

lemma sum_list_map_nonneg:
  "\<forall>x\<in>set xs. (0::real) \<le> r x \<Longrightarrow> 0 \<le> sum_list (map r xs)"
  by (induction xs) auto

lemma sum_list_map_one:
  "\<forall>x\<in>set xs. r x = (1::real) \<Longrightarrow> sum_list (map r xs) = real (length xs)"
  by (induction xs) auto

lemma length_points: "length (points (n_month, n_lat, n_lon)) = n_month * n_lat * n_lon"
  by simp

lemma weighted_fraction_range:
  assumes "\<forall>lat<n_lat. 0 \<le> w lat"
    and "sum_list (map (\<lambda>(m, la, lo). w la) (filter um (points (n_month, n_lat, n_lon)))) \<noteq> 0"
  shows "\<exists>r. weighted_fraction (n_month, n_lat, n_lon) w um ascent = Fin r \<and> 0 \<le> r \<and> r \<le> 1"
proof -
  let ?pts = "points (n_month, n_lat, n_lon)"
  let ?r = "\<lambda>(m, la, lo). w la"
  let ?den = "sum_list (map ?r (filter um ?pts))"
  let ?num = "sum_list (map ?r (filter (\<lambda>p. um p \<and> ascent p) ?pts))"
  have nn: "\<forall>p\<in>set ?pts. 0 \<le> ?r p"
    using assms(1) by auto
  have "set (filter um ?pts) \<subseteq> set ?pts" by (rule filter_is_subset)
  with nn have nn': "\<forall>p\<in>set (filter um ?pts). 0 \<le> ?r p" by blast
  have "filter (\<lambda>p. um p \<and> ascent p) ?pts = filter ascent (filter um ?pts)"
    by simp
  then have le: "?num \<le> ?den"
    using sum_list_filter_le [OF nn', of ascent] by simp
  have "set (filter (\<lambda>p. um p \<and> ascent p) ?pts) \<subseteq> set ?pts" by (rule filter_is_subset)
  with nn have "\<forall>p\<in>set (filter (\<lambda>p. um p \<and> ascent p) ?pts). 0 \<le> ?r p" by blast
  then have ge: "0 \<le> ?num" by (rule sum_list_map_nonneg)
  from le ge assms(2) have pos: "0 < ?den" by linarith
  have "weighted_fraction (n_month, n_lat, n_lon) w um ascent = Fin (?num / ?den)"
    using assms(2) by (simp add: weighted_fraction_def)
  moreover from le ge pos have "0 \<le> ?num / ?den" "?num / ?den \<le> 1" by simp_all
  ultimately show ?thesis by blast
qed

lemma fraction_count_aux:
  assumes "\<forall>p\<in>set pts. r p = (1::real)" and "pts \<noteq> []"
  shows "fdiv (Fin (sum_list (map r (filter ascent pts)))) (Fin (sum_list (map r pts)))
    = Fin (real (length (filter ascent pts)) / real (length pts))"
proof -
  from assms(1) have den: "sum_list (map r pts) = real (length pts)" by (rule sum_list_map_one)
  have "set (filter ascent pts) \<subseteq> set pts" by (rule filter_is_subset)
  with assms(1) have "\<forall>p\<in>set (filter ascent pts). r p = 1" by blast
  then have num: "sum_list (map r (filter ascent pts)) = real (length (filter ascent pts))"
    by (rule sum_list_map_one)
  from assms(2) show ?thesis by (simp add: den num)
qed

lemma weighted_fraction_count:
  assumes "\<forall>lat<n_lat. w lat = 1"
    and "\<forall>p\<in>set (points (n_month, n_lat, n_lon)). um p"
    and "points (n_month, n_lat, n_lon) \<noteq> []"
  shows "weighted_fraction (n_month, n_lat, n_lon) w um ascent
    = Fin (real (length (filter ascent (points (n_month, n_lat, n_lon))))
        / real (n_month * n_lat * n_lon))"
proof -
  let ?pts = "points (n_month, n_lat, n_lon)"
  let ?r = "\<lambda>(m, la, lo). w la"
  have one: "\<forall>p\<in>set ?pts. ?r p = 1" using assms(1) by auto
  from assms(2) have f: "filter um ?pts = ?pts" "filter (\<lambda>p. um p \<and> ascent p) ?pts = filter ascent ?pts"
    by (auto intro: filter_cong)
  have L: "length ?pts = n_month * n_lat * n_lon" by (rule length_points)
  show ?thesis
    unfolding weighted_fraction_def f
    using fraction_count_aux [OF one assms(3), of ascent] unfolding L .
qed

text \<open>
  C5: with weights that are finite and not negative and a denominator that is not zero,
  both estimators return a finite value between 0 and 1; with weights all equal to one
  and a mask that excludes no point, they return the number of points that satisfy the
  ascent predicate over the number of points of the grid.
\<close>

theorem ascent_fraction_range_and_count:
  assumes "\<forall>lat<n_lat. \<exists>x\<ge>0. weights lat = Fin x"
    and "grid_sum (n_month, n_lat, n_lon) (weights_3Darray weights landmask) \<noteq> Fin 0"
  shows "(\<exists>r. calc_ascent_frac (n_month, n_lat, n_lon) wap500 weights landmask = Fin r
            \<and> 0 \<le> r \<and> r \<le> 1)
    \<and> (\<exists>r. proportion_overcome_conv_threshold (n_month, n_lat, n_lon) hsfc hsat500 weights landmask
            = Fin r \<and> 0 \<le> r \<and> r \<le> 1)
    \<and> ((\<forall>lat<n_lat. weights lat = Fin 1)
        \<and> (\<forall>p\<in>set (points (n_month, n_lat, n_lon)). unmasked landmask p) \<longrightarrow>
        calc_ascent_frac (n_month, n_lat, n_lon) wap500 weights landmask
          = Fin (real (length (filter (\<lambda>(m, la, lo). flt (wap500 m la lo) (Fin 0))
                   (points (n_month, n_lat, n_lon)))) / real (n_month * n_lat * n_lon))
        \<and> proportion_overcome_conv_threshold (n_month, n_lat, n_lon) hsfc hsat500 weights landmask
          = Fin (real (length (filter (\<lambda>(m, la, lo). fgt (fsub (hsfc m la lo) (hsat500 m la lo)) (Fin 0))
                   (points (n_month, n_lat, n_lon)))) / real (n_month * n_lat * n_lon)))"
proof -
  let ?s = "(n_month, n_lat, n_lon)"
  define w where "w lat = (case weights lat of Fin x \<Rightarrow> x | _ \<Rightarrow> 0)" for lat
  from assms(1) have w: "\<forall>lat<n_lat. weights lat = Fin (w lat)" and nn: "\<forall>lat<n_lat. 0 \<le> w lat"
    by (auto simp: w_def)
  from assms(2) have den: "sum_list (map (\<lambda>(m, la, lo). w la) (filter (unmasked landmask) (points ?s))) \<noteq> 0"
    by (simp add: grid_sum_weights [OF w])
  have a: "\<exists>r. calc_ascent_frac ?s wap500 weights landmask = Fin r \<and> 0 \<le> r \<and> r \<le> 1"
    unfolding calc_ascent_frac_fraction [OF w] using nn den by (rule weighted_fraction_range)
  have b: "\<exists>r. proportion_overcome_conv_threshold ?s hsfc hsat500 weights landmask = Fin r
      \<and> 0 \<le> r \<and> r \<le> 1"
    unfolding proportion_fraction [OF w] using nn den by (rule weighted_fraction_range)
  have c: "calc_ascent_frac ?s wap500 weights landmask
          = Fin (real (length (filter (\<lambda>(m, la, lo). flt (wap500 m la lo) (Fin 0)) (points ?s)))
              / real (n_month * n_lat * n_lon))
        \<and> proportion_overcome_conv_threshold ?s hsfc hsat500 weights landmask
          = Fin (real (length (filter (\<lambda>(m, la, lo). fgt (fsub (hsfc m la lo) (hsat500 m la lo)) (Fin 0))
                   (points ?s))) / real (n_month * n_lat * n_lon))"
    if one: "\<forall>lat<n_lat. weights lat = Fin 1" and um: "\<forall>p\<in>set (points ?s). unmasked landmask p"
  proof -
    from one w have w1: "\<forall>lat<n_lat. w lat = 1" by auto
    from den have ne: "points ?s \<noteq> []" by auto
    show ?thesis
      unfolding calc_ascent_frac_fraction [OF w] proportion_fraction [OF w]
      using weighted_fraction_count [OF w1 um ne] by simp
  qed
  from a b c show ?thesis by blast
qed

lemmas grid_eval =
  grid_sum_def nansum_def fsum_def notnull_def xr_where_def weights_3Darray_def unmasked_def
  unit_weights_def all_ocean_def all_land_def const_field_def lon_field_def upt_conv_Cons

theorem ascent_fraction_range_and_count_witness:
  "unit_weights 0 = Fin 1
   \<and> grid_sum (2, 1, 2) (weights_3Darray unit_weights (const_field NaN)) \<noteq> Fin 0
   \<and> list_all (unmasked (const_field NaN)) (points (2, 1, 2))
   \<and> calc_ascent_frac (2, 1, 2) (lon_field [Fin (- 1), Fin 2]) unit_weights (const_field NaN)
       = Fin (1 / 2)
   \<and> proportion_overcome_conv_threshold (2, 1, 2) (const_field (Fin 10))
       (lon_field [Fin 6, Fin 12]) unit_weights (const_field NaN) = Fin (1 / 2)"
proof -
  have h1: "\<forall>lat<1. \<exists>x\<ge>0. unit_weights lat = Fin x" by (simp add: unit_weights_def)
  have h2: "grid_sum (2, 1, 2) (weights_3Darray unit_weights (const_field NaN)) \<noteq> Fin 0"
    by (simp add: grid_eval)
  have h3: "\<forall>lat<1. unit_weights lat = Fin 1" by (simp add: unit_weights_def)
  have h4: "\<forall>p\<in>set (points (2, 1, 2)). unmasked (const_field NaN) p"
    by (simp add: grid_eval)
  from ascent_fraction_range_and_count [OF h1 h2, of "lon_field [Fin (- 1), Fin 2]"
      "const_field (Fin 10)" "lon_field [Fin 6, Fin 12]"] h3 h4
  have "calc_ascent_frac (2, 1, 2) (lon_field [Fin (- 1), Fin 2]) unit_weights (const_field NaN)
       = Fin (1 / 2)
   \<and> proportion_overcome_conv_threshold (2, 1, 2) (const_field (Fin 10))
       (lon_field [Fin 6, Fin 12]) unit_weights (const_field NaN) = Fin (1 / 2)"
    by (simp add: grid_eval fgt_def fsub_def)
  moreover have "unit_weights 0 = Fin 1" by (simp add: unit_weights_def)
  moreover from h4 have "list_all (unmasked (const_field NaN)) (points (2, 1, 2))"
    by (simp only: list_all_iff)
  ultimately show ?thesis using h2 by blast
qed

subsection \<open>The mask and the weights\<close>





subsection \<open>A mask that excludes every point\<close>

lemma grid_sum_all_masked:
  assumes "\<forall>p\<in>set (points s). \<not> unmasked landmask p"
  shows "grid_sum s (\<lambda>m la lo. xr_where (c m la lo) (weights_3Darray weights landmask m la lo))
    = Fin 0"
proof -
  have "nansum (map (\<lambda>(m, la, lo). xr_where (c m la lo) (weights_3Darray weights landmask m la lo))
      (points s)) = Fin (sum_list (map (\<lambda>_. 0) (filter (\<lambda>_. False) (points s))))"
  proof (rule nansum_if, rule ballI)
    fix p assume "p \<in> set (points s)"
    with assms have "\<not> unmasked landmask p" by blast
    then show "(case p of (m, la, lo) \<Rightarrow>
        xr_where (c m la lo) (weights_3Darray weights landmask m la lo))
        = (if False then Fin 0 else NaN)"
      by (cases p) (auto simp: unmasked_def weights_3Darray_eq xr_where_def)
  qed
  then show ?thesis by (simp add: grid_sum_def)
qed

text \<open>
  When the mask excludes every point of the grid, the weighted denominator is 0.0, both
  ascent fractions are 0/0, that is NaN, and \<open>func\<close> returns NaN. What the optimiser of
  SciPy does with such an objective is not part of the notebook.
\<close>

lemma func_fully_masked:
  assumes "\<forall>p\<in>set (points s). \<not> unmasked landmask p"
  shows "grid_sum s (weights_3Darray weights landmask) = Fin 0
    \<and> calc_ascent_frac s wap500 weights landmask = NaN
    \<and> proportion_overcome_conv_threshold s hsfc hsat500 weights landmask = NaN
    \<and> func s weights landmask ehat hsfc adjustment' hsat500 wap500 = NaN"
proof -
  have d: "grid_sum s (weights_3Darray weights landmask) = Fin 0"
    using grid_sum_all_masked [OF assms, of "\<lambda>_ _ _. True"] by (simp add: xr_where_def)
  have a: "calc_ascent_frac s wap500 weights landmask = NaN"
    by (simp add: calc_ascent_frac_def d grid_sum_all_masked [OF assms])
  have b: "proportion_overcome_conv_threshold s f g weights landmask = NaN" for f g
    by (simp add: proportion_overcome_conv_threshold_def d grid_sum_all_masked [OF assms])
  from d a b show ?thesis by (simp add: func_def fsub_def)
qed

lemma objective_all_land:
  "objective (1, 1, 2) unit_weights all_land (const_field (Fin 10)) (const_field (Fin 5))
     (const_field (Fin 6)) (lon_field [Fin (- 1), Fin 2]) (Fin (15 / 100)) = NaN"
  by (simp add: objective_def func_def proportion_overcome_conv_threshold_def
      calc_ascent_frac_def masked_def grid_eval landmask_adjusted_def fne_def fsub_def Let_def)

end
